theory Spec2Isabelle
  imports Main
begin


section \<open>Values exchanged with the editor host\<close>

text \<open>
  The Container of \<^verbatim>\<open>src/Container.ts\<close> owns a handful of nullable fields and calls
  into collaborators whose code lives in other files (the reveal.js server, the editor
  context, the status bar, the slide explorer, the settings loader).  Objects that the
  code compares by reference are references here (natural numbers); everything the
  Container does to a collaborator is appended to a trace, in program order.

  The host runs one handler at a time, to completion.  The clock (\<^verbatim>\<open>Date.now()\<close>, in
  milliseconds) is an argument of every operation that reads it.  Slide coordinates and
  the clock are integers.  A collaborator that is called does not call back into the
  Container before it returns: the status bar and the slide explorer read getters only,
  and the server reads \<^verbatim>\<open>isInExport\<close> while it serves a request, which is an event of
  its own below.
\<close>

text \<open>A \<^verbatim>\<open>TextEditor\<close>: its identity and the \<^verbatim>\<open>document.languageId\<close> it shows.\<close>

record text_editor =
  editor_ref :: nat
  languageId :: string

text \<open>A \<^verbatim>\<open>vscode.Position\<close> and a \<^verbatim>\<open>vscode.Selection\<close>.\<close>

record vs_position =
  line :: nat
  character :: nat

record selection =
  anchor :: vs_position
  active :: vs_position

record selection_change_event =
  textEditor :: text_editor
  selections :: "selection list"

text \<open>
  Configuration objects are JavaScript objects: a finite map from property names to
  values.  Object spread \<^verbatim>\<open>{ ...a, ...b }\<close> is \<open>a ++ b\<close>: the right operand wins.
\<close>

datatype cfg_value = CStr string | CNum int | CBool bool | CNull

type_synonym configuration = "string \<rightharpoonup> cfg_value"

text \<open>JavaScript truthiness of a property read (\<open>None\<close> is \<^verbatim>\<open>undefined\<close>).\<close>

fun truthy :: "cfg_value option \<Rightarrow> bool" where
  "truthy None = False"
| "truthy (Some (CStr s)) = (s \<noteq> [])"
| "truthy (Some (CNum n)) = (n \<noteq> 0)"
| "truthy (Some (CBool b)) = b"
| "truthy (Some CNull) = False"

text \<open>The slide coordinate that \<^verbatim>\<open>EditorContext.position\<close> yields.\<close>

record slide_position =
  horizontal :: int
  vertical :: int

text \<open>
  What the Container reads from an \<^verbatim>\<open>EditorContext\<close> (a class of another file): one
  field per getter the Container uses.  The slide type \<open>'s\<close> is opaque to the Container.
\<close>

record 's editor_context =
  editor :: text_editor
  dirname :: string
  slideContent :: string
  hasfrontConfig :: bool
  documentOptions :: configuration
  slides :: "'s list"
  slideCount :: nat
  position :: slide_position
  isMarkdownFile :: bool

text \<open>What the Container reads from the \<^verbatim>\<open>RevealServer\<close>: \<^verbatim>\<open>isListening\<close> and \<^verbatim>\<open>uri\<close>.\<close>

record reveal_server =
  isListening :: bool
  uri :: "string option"

text \<open>The state of a promise, and of a debounced function of the lodash library.\<close>

datatype promise_state = Pending | Resolved cfg_value | Rejected

record debounced =
  lastCallTime :: "nat option"
  timerId :: bool

datatype command = SHOW_REVEALJS

text \<open>Calls into collaborators, in the order the Container makes them.\<close>

datatype effect =
    StatusBarUpdate
  | SlidesExplorerUpdate
  | SlidesExplorerRegister
  | ServerStart
  | ServerRefresh
  | ServerStop
  | EditorContextNew text_editor
  | EditorContextUpdatePosition vs_position
  | EditorContextRefresh
  | EditorContextGoToSlide int int
  | WebviewHtml nat string
  | ExecuteCommand command
  | ConsoleLog string

text \<open>
  The collaborators' code is not part of \<^verbatim>\<open>Container.ts\<close>; their behaviour is a
  parameter of every operation.  Nothing is assumed about these functions.
\<close>

record 's collab =
  newEditorContext :: "text_editor \<Rightarrow> configuration \<Rightarrow> 's editor_context"
  getDocumentOptions :: "configuration \<Rightarrow> configuration"
  updatePosition :: "vs_position \<Rightarrow> 's editor_context \<Rightarrow> 's editor_context"
  refresh :: "'s editor_context \<Rightarrow> 's editor_context"
  ctxGoToSlide :: "int \<Rightarrow> int \<Rightarrow> 's editor_context \<Rightarrow> 's editor_context"
  newRevealServer :: reveal_server
  serverStart :: "reveal_server \<Rightarrow> reveal_server"
  serverRefresh :: "reveal_server \<Rightarrow> reveal_server"
  serverStop :: "reveal_server \<Rightarrow> reveal_server"
  pathJoin :: "string \<Rightarrow> string \<Rightarrow> string"
  extensionId :: string

section \<open>The Container\<close>

text \<open>
  The fields of the class, then the heap they point into: promises and debounced
  functions are allocated at the end of their list and referred to by index, so that
  "the same promise" is equality of references.  \<open>priv_configuration\<close> is the field
  \<^verbatim>\<open>_configuration\<close>.  A stored resolve or reject function is the reference of the
  promise it settles.
\<close>

record 's container =
  server :: reveal_server
  editorContext :: "'s editor_context option"
  priv_configuration :: configuration
  webView :: "nat option"
  exportPromiseResolve :: "nat option"
  exportPromiseReject :: "nat option"
  endDebounce :: "nat option"
  exportPromise :: "nat option"
  promises :: "promise_state list"
  debouncers :: "debounced list"
  trace :: "effect list"

definition emit :: "effect \<Rightarrow> 's container \<Rightarrow> 's container" where
  "emit e s = s\<lparr>trace := trace s @ [e]\<rparr>"

subsection \<open>Template literals\<close>

definition digit :: "nat \<Rightarrow> char" where
  "digit d = ''0123456789'' ! (d mod 10)"

fun show_nat :: "nat \<Rightarrow> string" where
  "show_nat n = (if n < 10 then [digit n] else show_nat (n div 10) @ [digit (n mod 10)])"

declare show_nat.simps [simp del]

definition show_int :: "int \<Rightarrow> string" where
  "show_int i = (if i < 0 then CHR ''-'' # show_nat (nat (- i)) else show_nat (nat i))"

text \<open>\<^verbatim>\<open>${x}\<close> for a value that is a string or \<^verbatim>\<open>null\<close>.\<close>

definition template_str :: "string option \<Rightarrow> string" where
  "template_str v = (case v of None \<Rightarrow> ''null'' | Some str \<Rightarrow> str)"

subsection \<open>Getters\<close>

definition rootDir :: "'s container \<Rightarrow> string" where
  "rootDir s = (case editorContext s of Some ctx \<Rightarrow> dirname ctx | None \<Rightarrow> [])"

definition get_slideContent :: "'s container \<Rightarrow> string option" where
  "get_slideContent s =
     (case editorContext s of Some ctx \<Rightarrow> Some (slideContent ctx) | None \<Rightarrow> None)"

definition configuration :: "'s container \<Rightarrow> configuration" where
  "configuration s =
     (case editorContext s of
        Some ctx \<Rightarrow>
          if hasfrontConfig ctx then priv_configuration s ++ documentOptions ctx
          else priv_configuration s
      | None \<Rightarrow> priv_configuration s)"

definition get_slides :: "'s container \<Rightarrow> 's list" where
  "get_slides s = (case editorContext s of None \<Rightarrow> [] | Some ctx \<Rightarrow> slides ctx)"

definition get_slideCount :: "'s container \<Rightarrow> nat" where
  "get_slideCount s = (case editorContext s of None \<Rightarrow> 0 | Some ctx \<Rightarrow> slideCount ctx)"

definition get_isMarkdownFile :: "'s container \<Rightarrow> bool" where
  "get_isMarkdownFile s =
     (case editorContext s of None \<Rightarrow> False | Some ctx \<Rightarrow> isMarkdownFile ctx)"

text \<open>\<open>now\<close> is what \<^verbatim>\<open>Date.now()\<close> returns during the call.\<close>

definition getUri :: "nat \<Rightarrow> bool \<Rightarrow> 's container \<Rightarrow> string option" where
  "getUri now withPosition s =
     (if \<not> isListening (server s) then None
      else case editorContext s of
        None \<Rightarrow> None
      | Some ctx \<Rightarrow>
          let serverUri = uri (server s); slidepos = position ctx in
          if withPosition
          then Some (template_str serverUri @ ''#/'' @ show_int (horizontal slidepos) @ ''/''
                     @ show_int (vertical slidepos) @ ''/'' @ show_nat now)
          else Some (template_str serverUri))"

definition exportPath :: "'s collab \<Rightarrow> 's container \<Rightarrow> cfg_value" where
  "exportPath c s =
     (if truthy (configuration s ''exportHTMLPath'')
      then the (configuration s ''exportHTMLPath'')
      else CStr (pathJoin c (rootDir s) ''export''))"

subsection \<open>The render surface\<close>

definition webview_html :: "string option \<Rightarrow> string" where
  "webview_html u =
     ''<style>html, body, iframe { height: 100% }</style>'' @ [CHR 0x0A]
     @ ''      <iframe src='' @ [CHR 0x22] @ template_str u @ [CHR 0x22]
     @ '' frameBorder='' @ [CHR 0x22] @ ''0'' @ [CHR 0x22]
     @ '' style='' @ [CHR 0x22] @ ''width: 100%; height: 100%'' @ [CHR 0x22] @ '' />''"

definition refreshWebView :: "nat \<Rightarrow> nat option \<Rightarrow> 's container \<Rightarrow> 's container" where
  "refreshWebView now view s =
     (let s1 = (case view of Some v \<Rightarrow> s\<lparr>webView := Some v\<rparr> | None \<Rightarrow> s) in
      case webView s1 of
        Some w \<Rightarrow> emit (WebviewHtml w (webview_html (getUri now True s1))) s1
      | None \<Rightarrow> s1)"

subsection \<open>The export coordinator\<close>

text \<open>
  \<^verbatim>\<open>debounce(f, 800)\<close> of lodash, with its default options (trailing edge only, no
  \<^verbatim>\<open>maxWait\<close>).  Creating the debounced function starts no timer.  A call records the
  time of the call and makes sure a timer is pending; it never runs \<open>f\<close> itself.  When
  the timer expires, \<open>f\<close> runs if no call was ever recorded, if at least 800 ms have
  passed since the last call, or if the clock went backwards; otherwise the timer is
  started again for the rest of the wait.
\<close>

definition debounce_wait :: nat where
  "debounce_wait = 800"

definition new_debounced :: debounced where
  "new_debounced = \<lparr>lastCallTime = None, timerId = False\<rparr>"

definition call_debounced :: "nat \<Rightarrow> debounced \<Rightarrow> debounced" where
  "call_debounced now d = d\<lparr>lastCallTime := Some now, timerId := True\<rparr>"

definition shouldInvoke :: "nat \<Rightarrow> debounced \<Rightarrow> bool" where
  "shouldInvoke now d =
     (case lastCallTime d of
        None \<Rightarrow> True
      | Some t \<Rightarrow> debounce_wait \<le> now - t \<or> now < t)"

text \<open>The getter \<^verbatim>\<open>isInExport\<close>: its value and the state after the read.\<close>

definition isInExport :: "nat \<Rightarrow> 's container \<Rightarrow> bool \<times> 's container" where
  "isInExport now s =
     (if exportPromise s = None then (False, s)
      else
        let s1 = (case endDebounce s of
                    None \<Rightarrow> s
                  | Some d \<Rightarrow>
                      s\<lparr>debouncers := (debouncers s)[d := call_debounced now (debouncers s ! d)]\<rparr>)
        in (exportPromise s1 \<noteq> None, s1))"

text \<open>Settling a promise through its resolve function: only a pending promise changes.\<close>

definition resolve_promise :: "nat \<Rightarrow> cfg_value \<Rightarrow> 's container \<Rightarrow> 's container" where
  "resolve_promise r v s =
     (if r < length (promises s) \<and> promises s ! r = Pending
      then s\<lparr>promises := (promises s)[r := Resolved v]\<rparr>
      else s)"

text \<open>The arrow function that \<^verbatim>\<open>startExport\<close> hands to \<^verbatim>\<open>debounce\<close>.\<close>

definition endExport :: "'s collab \<Rightarrow> 's container \<Rightarrow> 's container" where
  "endExport c s =
     (case (exportPromise s, exportPromiseResolve s) of
        (Some _, Some r) \<Rightarrow>
          (resolve_promise r (exportPath c s) s)\<lparr>exportPromise := None, endDebounce := None\<rparr>
      | _ \<Rightarrow> s)"

text \<open>
  The timer of debounced function \<open>d\<close> expires at time \<open>now\<close>.  Nothing happens
  unless that function exists and its timer is pending.  If the call is due, the timer
  is cleared and the callback runs; if not, the timer stays pending for the rest of the
  wait.
\<close>

definition timerExpired :: "'s collab \<Rightarrow> nat \<Rightarrow> nat \<Rightarrow> 's container \<Rightarrow> 's container" where
  "timerExpired c now d s =
     (if d < length (debouncers s) \<and> timerId (debouncers s ! d)
      then
        if shouldInvoke now (debouncers s ! d)
        then endExport c (s\<lparr>debouncers := (debouncers s)[d := (debouncers s ! d)\<lparr>timerId := False\<rparr>]\<rparr>)
        else s
      else s)"

definition startExport :: "nat \<Rightarrow> 's container \<Rightarrow> nat option \<times> 's container" where
  "startExport now s =
     (let s1 = (if exportPromise s = None
                then s\<lparr>exportPromise := Some (length (promises s)),
                        exportPromiseResolve := Some (length (promises s)),
                        exportPromiseReject := Some (length (promises s)),
                        promises := promises s @ [Pending],
                        endDebounce := Some (length (debouncers s)),
                        debouncers := debouncers s @ [new_debounced]\<rparr>
                else s);
          s2 = (case webView s1 of
                  Some _ \<Rightarrow> refreshWebView now None s1
                | None \<Rightarrow> emit (ExecuteCommand SHOW_REVEALJS) s1)
      in (exportPromise s2, s2))"

subsection \<open>Event handlers and commands\<close>

definition onDidChangeTextEditorSelection ::
  "'s collab \<Rightarrow> nat \<Rightarrow> selection_change_event \<Rightarrow> 's container \<Rightarrow> 's container" where
  "onDidChangeTextEditorSelection c now event s =
     (case editorContext s of
        None \<Rightarrow> s
      | Some ctx \<Rightarrow>
          if editor_ref (textEditor event) \<noteq> editor_ref (editor ctx)
             \<or> length (selections event) = 0
          then s
          else
            let end_pos = active (selections event ! 0);
                ctx1 = updatePosition c end_pos ctx;
                s1 = emit (EditorContextUpdatePosition end_pos) (s\<lparr>editorContext := Some ctx1\<rparr>);
                s2 = refreshWebView now None s1;
                s3 = emit EditorContextRefresh (s2\<lparr>editorContext := Some (refresh c ctx1)\<rparr>);
                s4 = emit StatusBarUpdate s3
            in emit SlidesExplorerUpdate s4)"

definition onDidChangeActiveTextEditor ::
  "'s collab \<Rightarrow> nat \<Rightarrow> text_editor option \<Rightarrow> 's container \<Rightarrow> 's container" where
  "onDidChangeActiveTextEditor c now ed s =
     (let s1 = (case ed of
                  Some e \<Rightarrow>
                    if languageId e = ''markdown''
                    then emit (EditorContextNew e)
                           (s\<lparr>editorContext :=
                                Some (newEditorContext c e (getDocumentOptions c (configuration s)))\<rparr>)
                    else s
                | None \<Rightarrow> s);
          s2 = emit ServerStart (s1\<lparr>server := serverStart c (server s1)\<rparr>);
          s3 = emit ServerRefresh (s2\<lparr>server := serverRefresh c (server s2)\<rparr>);
          s4 = refreshWebView now None s3;
          s5 = emit StatusBarUpdate s4
      in emit SlidesExplorerUpdate s5)"

definition onDidChangeTextDocument :: "'s container \<Rightarrow> 's container" where
  "onDidChangeTextDocument s = emit (ConsoleLog ''onDidChangeTextDocument'') s"

definition onDidSaveTextDocument :: "'s container \<Rightarrow> 's container" where
  "onDidSaveTextDocument s = emit (ConsoleLog ''onDidSaveTextDocument'') s"

definition onDidCloseTextDocument :: "'s container \<Rightarrow> 's container" where
  "onDidCloseTextDocument s = emit (ConsoleLog ''onDidCloseTextDocument'') s"

text \<open>
  \<open>affects\<close> is the event's \<^verbatim>\<open>affectsConfiguration\<close>; \<open>loaded\<close> is what
  \<^verbatim>\<open>loadConfiguration()\<close> returns at the time of the call.
\<close>

definition onDidChangeConfiguration ::
  "'s collab \<Rightarrow> (string \<Rightarrow> bool) \<Rightarrow> configuration \<Rightarrow> 's container \<Rightarrow> 's container" where
  "onDidChangeConfiguration c affects loaded s =
     (if \<not> affects (extensionId c) then s else s\<lparr>priv_configuration := loaded\<rparr>)"

definition new_Container :: "'s collab \<Rightarrow> configuration \<Rightarrow> 's container" where
  "new_Container c loaded =
     \<lparr>server = newRevealServer c,
      editorContext = None,
      priv_configuration = loaded,
      webView = None,
      exportPromiseResolve = None,
      exportPromiseReject = None,
      endDebounce = None,
      exportPromise = None,
      promises = [],
      debouncers = [],
      trace = [StatusBarUpdate, SlidesExplorerRegister]\<rparr>"

definition goToSlide :: "'s collab \<Rightarrow> nat \<Rightarrow> int \<Rightarrow> int \<Rightarrow> 's container \<Rightarrow> 's container" where
  "goToSlide c now topindex verticalIndex s =
     (let s1 = (case editorContext s of
                  Some ctx \<Rightarrow>
                    emit (EditorContextGoToSlide topindex verticalIndex)
                      (s\<lparr>editorContext := Some (ctxGoToSlide c topindex verticalIndex ctx)\<rparr>)
                | None \<Rightarrow> s)
      in refreshWebView now None s1)"

definition stopServer :: "'s collab \<Rightarrow> 's container \<Rightarrow> 's container" where
  "stopServer c s =
     emit StatusBarUpdate (emit ServerStop (s\<lparr>server := serverStop c (server s)\<rparr>))"

subsection \<open>Executions\<close>

text \<open>
  Everything that can happen to a Container after its construction: the host's events,
  the public methods, a read of \<^verbatim>\<open>isInExport\<close> (the server reads it while it serves a
  request) and the expiry of a debounce timer.  Each is stamped with the clock's value
  when it runs.  The other getters change nothing and are not events.
\<close>

datatype host_event =
    SelectionChanged selection_change_event
  | ActiveEditorChanged "text_editor option"
  | TextDocumentChanged
  | TextDocumentSaved
  | TextDocumentClosed
  | ConfigurationChanged "string \<Rightarrow> bool" configuration
  | StartExport
  | ReadIsInExport
  | GoToSlide int int
  | StopServer
  | RefreshWebView "nat option"
  | TimerExpired nat

fun step :: "'s collab \<Rightarrow> nat \<times> host_event \<Rightarrow> 's container \<Rightarrow> 's container" where
  "step c (now, SelectionChanged ev) s = onDidChangeTextEditorSelection c now ev s"
| "step c (now, ActiveEditorChanged ed) s = onDidChangeActiveTextEditor c now ed s"
| "step c (now, TextDocumentChanged) s = onDidChangeTextDocument s"
| "step c (now, TextDocumentSaved) s = onDidSaveTextDocument s"
| "step c (now, TextDocumentClosed) s = onDidCloseTextDocument s"
| "step c (now, ConfigurationChanged affects loaded) s = onDidChangeConfiguration c affects loaded s"
| "step c (now, StartExport) s = snd (startExport now s)"
| "step c (now, ReadIsInExport) s = snd (isInExport now s)"
| "step c (now, GoToSlide t v) s = goToSlide c now t v s"
| "step c (now, StopServer) s = stopServer c s"
| "step c (now, RefreshWebView view) s = refreshWebView now view s"
| "step c (now, TimerExpired d) s = timerExpired c now d s"

fun run :: "'s collab \<Rightarrow> (nat \<times> host_event) list \<Rightarrow> 's container \<Rightarrow> 's container" where
  "run c [] s = s"
| "run c (e # es) s = run c es (step c e s)"

section \<open>Notions used to state the properties\<close>

text \<open>The part of the state that belongs to the export session.\<close>

definition export_state ::
  "'s container \<Rightarrow> nat option \<times> nat option \<times> nat option \<times> nat option \<times> promise_state list \<times> debounced list" where
  "export_state s =
     (exportPromise s, exportPromiseResolve s, exportPromiseReject s, endDebounce s,
      promises s, debouncers s)"

text \<open>
  The invariant of the export session.  A session and its debounced function exist
  together; the stored resolve function belongs to the session's promise, which is
  pending; no other promise is pending; and no debounced function but the session's
  has a timer running, which was started by a call.
\<close>

definition session_inv :: "'s container \<Rightarrow> bool" where
  "session_inv s =
     ((exportPromise s = None) = (endDebounce s = None)
      \<and> (\<forall>p. exportPromise s = Some p \<longrightarrow>
             p < length (promises s) \<and> promises s ! p = Pending \<and> exportPromiseResolve s = Some p)
      \<and> (\<forall>i < length (promises s). promises s ! i = Pending \<longrightarrow> exportPromise s = Some i)
      \<and> (\<forall>d. endDebounce s = Some d \<longrightarrow> d < length (debouncers s))
      \<and> (\<forall>d < length (debouncers s). timerId (debouncers s ! d) \<longrightarrow>
             endDebounce s = Some d \<and> lastCallTime (debouncers s ! d) \<noteq> None))"

text \<open>
  A schedule in which the export status keeps being read: whenever a debounce timer
  expires, the last read of \<^verbatim>\<open>isInExport\<close> (at time \<open>q\<close>, if there was one) is less
  than the debounce wait in the past.
\<close>

fun keeps_polling :: "nat option \<Rightarrow> (nat \<times> host_event) list \<Rightarrow> bool" where
  "keeps_polling q [] = True"
| "keeps_polling q ((t, ReadIsInExport) # es) = keeps_polling (Some t) es"
| "keeps_polling q ((t, TimerExpired d) # es) =
     ((case q of None \<Rightarrow> True | Some u \<Rightarrow> u \<le> t \<and> t < u + debounce_wait) \<and> keeps_polling q es)"
| "keeps_polling q ((t, ev) # es) = keeps_polling q es"

section \<open>Sample values\<close>

text \<open>
  A markdown editor with five slides in front of a listening server, a second editor
  that shows plain text, and collaborators that behave the way the extension's do.
\<close>

definition demo_editor :: text_editor where
  "demo_editor = \<lparr>editor_ref = 1, languageId = ''markdown''\<rparr>"

definition demo_other_editor :: text_editor where
  "demo_other_editor = \<lparr>editor_ref = 2, languageId = ''plaintext''\<rparr>"

definition demo_context :: "string editor_context" where
  "demo_context =
     \<lparr>editor = demo_editor,
      dirname = ''/talks'',
      slideContent = ''# one'',
      hasfrontConfig = True,
      documentOptions = [''theme'' \<mapsto> CStr ''night''],
      slides = [''one'', ''two'', ''three'', ''four'', ''five''],
      slideCount = 5,
      position = \<lparr>horizontal = 2, vertical = 1\<rparr>,
      isMarkdownFile = True\<rparr>"

definition demo_server :: reveal_server where
  "demo_server = \<lparr>isListening = True, uri = Some ''http://localhost:1948/''\<rparr>"

definition demo_collab :: "string collab" where
  "demo_collab =
     \<lparr>newEditorContext = (\<lambda>e opts.
        \<lparr>editor = e, dirname = ''/talks'', slideContent = [], hasfrontConfig = False,
         documentOptions = opts, slides = [], slideCount = 0,
         position = \<lparr>horizontal = 0, vertical = 0\<rparr>, isMarkdownFile = True\<rparr>),
      getDocumentOptions = (\<lambda>cfg. cfg),
      updatePosition = (\<lambda>p ctx. ctx\<lparr>position := \<lparr>horizontal = int (line p), vertical = 0\<rparr>\<rparr>),
      refresh = (\<lambda>ctx. ctx\<lparr>position := \<lparr>horizontal = 0, vertical = 0\<rparr>\<rparr>),
      ctxGoToSlide = (\<lambda>t v ctx. ctx\<lparr>position := \<lparr>horizontal = t, vertical = v\<rparr>\<rparr>),
      newRevealServer = \<lparr>isListening = False, uri = None\<rparr>,
      serverStart = (\<lambda>srv. demo_server),
      serverRefresh = (\<lambda>srv. srv),
      serverStop = (\<lambda>srv. \<lparr>isListening = False, uri = None\<rparr>),
      pathJoin = (\<lambda>a b. if a = [] then b else a @ ''/'' @ b),
      extensionId = ''revealjs''\<rparr>"

definition demo_container :: "string container" where
  "demo_container =
     \<lparr>server = demo_server,
      editorContext = Some demo_context,
      priv_configuration = [''theme'' \<mapsto> CStr ''black'', ''exportHTMLPath'' \<mapsto> CStr ''/out''],
      webView = Some 7,
      exportPromiseResolve = None,
      exportPromiseReject = None,
      endDebounce = None,
      exportPromise = None,
      promises = [],
      debouncers = [],
      trace = []\<rparr>"

text \<open>The same Container before any editor was bound.\<close>

definition demo_unbound :: "string container" where
  "demo_unbound = demo_container\<lparr>editorContext := None\<rparr>"

text \<open>The cursor moved to line 3 in the bound editor, with text selected from line 1.\<close>

definition demo_event :: selection_change_event where
  "demo_event =
     \<lparr>textEditor = demo_editor,
      selections = [\<lparr>anchor = \<lparr>line = 1, character = 0\<rparr>, active = \<lparr>line = 3, character = 4\<rparr>\<rparr>]\<rparr>"

text \<open>The events that touch the export session, and the time of the last status read.\<close>

fun export_event :: "host_event \<Rightarrow> bool" where
  "export_event StartExport = True"
| "export_event ReadIsInExport = True"
| "export_event (TimerExpired d) = True"
| "export_event ev = False"

fun last_read :: "nat option \<Rightarrow> (nat \<times> host_event) list \<Rightarrow> nat option" where
  "last_read q [] = q"
| "last_read q ((t, ReadIsInExport) # es) = last_read (Some t) es"
| "last_read q ((t, ev) # es) = last_read q es"

text \<open>An export was started at time 0 and its status was read at time 10.\<close>

definition demo_pending :: "string container" where
  "demo_pending = snd (isInExport 10 (snd (startExport 0 demo_container)))"

section \<open>Frame lemmas\<close>

lemma emit_fields [simp]:
  "server (emit e s) = server s"
  "editorContext (emit e s) = editorContext s"
  "priv_configuration (emit e s) = priv_configuration s"
  "webView (emit e s) = webView s"
  "exportPromiseResolve (emit e s) = exportPromiseResolve s"
  "exportPromiseReject (emit e s) = exportPromiseReject s"
  "endDebounce (emit e s) = endDebounce s"
  "exportPromise (emit e s) = exportPromise s"
  "promises (emit e s) = promises s"
  "debouncers (emit e s) = debouncers s"
  "trace (emit e s) = trace s @ [e]"
  by (simp_all add: emit_def)

lemma refreshWebView_fields [simp]:
  "server (refreshWebView now v s) = server s"
  "editorContext (refreshWebView now v s) = editorContext s"
  "priv_configuration (refreshWebView now v s) = priv_configuration s"
  "exportPromiseResolve (refreshWebView now v s) = exportPromiseResolve s"
  "exportPromiseReject (refreshWebView now v s) = exportPromiseReject s"
  "endDebounce (refreshWebView now v s) = endDebounce s"
  "exportPromise (refreshWebView now v s) = exportPromise s"
  "promises (refreshWebView now v s) = promises s"
  "debouncers (refreshWebView now v s) = debouncers s"
  by (simp_all add: refreshWebView_def Let_def split: option.splits)

lemma refreshWebView_webView:
  "webView (refreshWebView now v s) = (case v of Some x \<Rightarrow> Some x | None \<Rightarrow> webView s)"
  by (simp add: refreshWebView_def Let_def split: option.splits)

lemma refreshWebView_trace:
  "trace (refreshWebView now v s) =
     trace s @ (case (case v of Some x \<Rightarrow> Some x | None \<Rightarrow> webView s) of
                  Some w \<Rightarrow> [WebviewHtml w (webview_html (getUri now True s))]
                | None \<Rightarrow> [])"
  by (simp add: refreshWebView_def Let_def getUri_def split: option.splits)

lemma export_state_emit [simp]: "export_state (emit e s) = export_state s"
  by (simp add: export_state_def)

lemma export_state_refreshWebView [simp]:
  "export_state (refreshWebView now v s) = export_state s"
  by (simp add: export_state_def)

lemma export_state_selection [simp]:
  "export_state (onDidChangeTextEditorSelection c now ev s) = export_state s"
  by (simp add: onDidChangeTextEditorSelection_def Let_def split: option.splits)
     (simp add: export_state_def)

lemma export_state_active_editor [simp]:
  "export_state (onDidChangeActiveTextEditor c now ed s) = export_state s"
  by (simp add: onDidChangeActiveTextEditor_def Let_def split: option.splits)
     (simp add: export_state_def)

lemma export_state_documents [simp]:
  "export_state (onDidChangeTextDocument s) = export_state s"
  "export_state (onDidSaveTextDocument s) = export_state s"
  "export_state (onDidCloseTextDocument s) = export_state s"
  by (simp_all add: onDidChangeTextDocument_def onDidSaveTextDocument_def
        onDidCloseTextDocument_def)

lemma export_state_configuration [simp]:
  "export_state (onDidChangeConfiguration c affects loaded s) = export_state s"
  by (simp add: onDidChangeConfiguration_def export_state_def)

lemma export_state_goToSlide [simp]:
  "export_state (goToSlide c now t v s) = export_state s"
  by (simp add: goToSlide_def Let_def split: option.splits) (simp add: export_state_def)

lemma export_state_stopServer [simp]: "export_state (stopServer c s) = export_state s"
  by (simp add: stopServer_def) (simp add: export_state_def)

lemma export_state_startExport:
  "export_state (snd (startExport now s)) =
     (if exportPromise s = None
      then (Some (length (promises s)), Some (length (promises s)), Some (length (promises s)),
            Some (length (debouncers s)), promises s @ [Pending], debouncers s @ [new_debounced])
      else export_state s)"
  by (simp add: startExport_def Let_def split: option.splits) (simp add: export_state_def)

lemma export_state_isInExport:
  "export_state (snd (isInExport now s)) =
     (case (exportPromise s, endDebounce s) of
        (Some p, Some d) \<Rightarrow>
          (exportPromise s, exportPromiseResolve s, exportPromiseReject s, endDebounce s,
           promises s, (debouncers s)[d := call_debounced now (debouncers s ! d)])
      | _ \<Rightarrow> export_state s)"
  by (simp add: isInExport_def Let_def export_state_def split: option.splits)

lemma session_inv_cong: "export_state s' = export_state s \<Longrightarrow> session_inv s' = session_inv s"
  by (simp add: session_inv_def export_state_def)

lemma session_inv_frame:
  "export_state s' = export_state s \<Longrightarrow> session_inv s \<Longrightarrow> session_inv s'"
  using session_inv_cong by blast

lemma exportPath_frame:
  "editorContext s' = editorContext s \<Longrightarrow> priv_configuration s' = priv_configuration s
   \<Longrightarrow> exportPath c s' = exportPath c s"
  by (simp add: exportPath_def configuration_def rootDir_def split: option.splits)

lemma startExport_frame:
  "editorContext (snd (startExport now s)) = editorContext s"
  "priv_configuration (snd (startExport now s)) = priv_configuration s"
  by (simp_all add: startExport_def Let_def split: option.splits)

section \<open>The export session\<close>

text \<open>The invariant, one conjunct at a time.\<close>

lemma session_inv_pair:
  "session_inv s \<Longrightarrow> (exportPromise s = None) = (endDebounce s = None)"
  unfolding session_inv_def by blast

lemma session_inv_promise:
  "session_inv s \<Longrightarrow> exportPromise s = Some p \<Longrightarrow>
     p < length (promises s) \<and> promises s ! p = Pending \<and> exportPromiseResolve s = Some p"
  unfolding session_inv_def by blast

lemma session_inv_pending:
  "session_inv s \<Longrightarrow> i < length (promises s) \<Longrightarrow> promises s ! i = Pending \<Longrightarrow>
     exportPromise s = Some i"
  unfolding session_inv_def by blast

lemma session_inv_debounce:
  "session_inv s \<Longrightarrow> endDebounce s = Some d \<Longrightarrow> d < length (debouncers s)"
  unfolding session_inv_def by blast

lemma session_inv_timer:
  "session_inv s \<Longrightarrow> d < length (debouncers s) \<Longrightarrow> timerId (debouncers s ! d) \<Longrightarrow>
     endDebounce s = Some d \<and> lastCallTime (debouncers s ! d) \<noteq> None"
  unfolding session_inv_def by blast

lemma session_invI:
  assumes "(exportPromise s = None) = (endDebounce s = None)"
    and "\<And>p. exportPromise s = Some p \<Longrightarrow>
           p < length (promises s) \<and> promises s ! p = Pending \<and> exportPromiseResolve s = Some p"
    and "\<And>i. i < length (promises s) \<Longrightarrow> promises s ! i = Pending \<Longrightarrow> exportPromise s = Some i"
    and "\<And>d. endDebounce s = Some d \<Longrightarrow> d < length (debouncers s)"
    and "\<And>d. d < length (debouncers s) \<Longrightarrow> timerId (debouncers s ! d) \<Longrightarrow>
           endDebounce s = Some d \<and> lastCallTime (debouncers s ! d) \<noteq> None"
  shows "session_inv s"
  unfolding session_inv_def using assms by blast

lemma session_inv_idle_promises:
  assumes "session_inv s" and "exportPromise s = None" and "i < length (promises s)"
  shows "promises s ! i \<noteq> Pending"
  using session_inv_pending [OF assms(1) assms(3)] assms(2) by auto

lemma session_inv_idle_timers:
  assumes "session_inv s" and "exportPromise s = None" and "d < length (debouncers s)"
  shows "\<not> timerId (debouncers s ! d)"
  using session_inv_timer [OF assms(1) assms(3)] session_inv_pair [OF assms(1)] assms(2) by auto

lemma session_inv_new: "session_inv (new_Container c loaded)"
  by (simp add: session_inv_def new_Container_def)

lemma session_inv_startExport_idle:
  assumes inv: "session_inv s" and idle: "exportPromise s = None"
  shows "session_inv (snd (startExport now s))"
proof -
  define s' where "s' = snd (startExport now s)"
  have "export_state s' =
      (Some (length (promises s)), Some (length (promises s)), Some (length (promises s)),
       Some (length (debouncers s)), promises s @ [Pending], debouncers s @ [new_debounced])"
    unfolding s'_def using idle by (simp add: export_state_startExport)
  then have f: "exportPromise s' = Some (length (promises s))"
    "exportPromiseResolve s' = Some (length (promises s))"
    "endDebounce s' = Some (length (debouncers s))" "promises s' = promises s @ [Pending]"
    "debouncers s' = debouncers s @ [new_debounced]"
    by (simp_all add: export_state_def)
  have "session_inv s'"
  proof (rule session_invI)
    show "(exportPromise s' = None) = (endDebounce s' = None)" by (simp add: f)
  next
    fix p assume "exportPromise s' = Some p"
    then show "p < length (promises s') \<and> promises s' ! p = Pending \<and> exportPromiseResolve s' = Some p"
      by (auto simp: f)
  next
    fix i assume i: "i < length (promises s')" "promises s' ! i = Pending"
    have "\<not> i < length (promises s)"
    proof
      assume lt: "i < length (promises s)"
      with i have "promises s ! i = Pending" by (simp add: f nth_append)
      with session_inv_idle_promises [OF inv idle lt] show False by simp
    qed
    with i have "i = length (promises s)" by (simp add: f)
    then show "exportPromise s' = Some i" by (simp add: f)
  next
    fix d assume "endDebounce s' = Some d"
    then show "d < length (debouncers s')" by (auto simp: f)
  next
    fix d assume d: "d < length (debouncers s')" "timerId (debouncers s' ! d)"
    show "endDebounce s' = Some d \<and> lastCallTime (debouncers s' ! d) \<noteq> None"
    proof (cases "d < length (debouncers s)")
      case True
      with d have "timerId (debouncers s ! d)" by (simp add: f nth_append)
      with session_inv_idle_timers [OF inv idle True] show ?thesis by simp
    next
      case False
      with d have "d = length (debouncers s)" by (simp add: f)
      with d show ?thesis by (simp add: f new_debounced_def)
    qed
  qed
  then show ?thesis by (simp add: s'_def)
qed

lemma session_inv_startExport:
  assumes "session_inv s"
  shows "session_inv (snd (startExport now s))"
proof (cases "exportPromise s = None")
  case True
  show ?thesis by (rule session_inv_startExport_idle [OF assms True])
next
  case False
  then obtain p where "exportPromise s = Some p" by blast
  then have "export_state (snd (startExport now s)) = export_state s"
    by (simp add: export_state_startExport)
  then show ?thesis using assms by (rule session_inv_frame)
qed

lemma isInExport_idle: "exportPromise s = None \<Longrightarrow> isInExport now s = (False, s)"
  by (simp add: isInExport_def)

lemma session_inv_isInExport_idle:
  assumes "session_inv s" and "exportPromise s = None"
  shows "session_inv (snd (isInExport now s))"
  unfolding isInExport_idle [OF assms(2)] snd_conv by (rule assms)

lemma isInExport_pending_fields:
  assumes "exportPromise s = Some p" and "endDebounce s = Some d"
  shows "exportPromise (snd (isInExport now s)) = Some p"
    and "exportPromiseResolve (snd (isInExport now s)) = exportPromiseResolve s"
    and "endDebounce (snd (isInExport now s)) = Some d"
    and "promises (snd (isInExport now s)) = promises s"
    and "debouncers (snd (isInExport now s)) =
           (debouncers s)[d := call_debounced now (debouncers s ! d)]"
  using assms by (simp_all add: isInExport_def)

lemma session_inv_isInExport_pending:
  assumes inv: "session_inv s" and p: "exportPromise s = Some p"
  shows "session_inv (snd (isInExport now s))"
proof -
  from session_inv_pair [OF inv] p have "endDebounce s \<noteq> None" by simp
  then obtain d where d: "endDebounce s = Some d" by blast
  have dlt: "d < length (debouncers s)" by (rule session_inv_debounce [OF inv d])
  define s' where "s' = snd (isInExport now s)"
  note f = isInExport_pending_fields [OF p d, of now, folded s'_def]
  have "session_inv s'"
  proof (rule session_invI)
    show "(exportPromise s' = None) = (endDebounce s' = None)" by (simp add: f)
  next
    fix q assume "exportPromise s' = Some q"
    then have "q = p" by (simp add: f)
    with session_inv_promise [OF inv p]
    show "q < length (promises s') \<and> promises s' ! q = Pending \<and> exportPromiseResolve s' = Some q"
      by (simp add: f)
  next
    fix i assume "i < length (promises s')" "promises s' ! i = Pending"
    then have "exportPromise s = Some i" using session_inv_pending [OF inv, of i] by (simp add: f)
    with p show "exportPromise s' = Some i" by (simp add: f)
  next
    fix e assume "endDebounce s' = Some e"
    then show "e < length (debouncers s')" using dlt by (simp add: f)
  next
    fix e assume e: "e < length (debouncers s')" "timerId (debouncers s' ! e)"
    show "endDebounce s' = Some e \<and> lastCallTime (debouncers s' ! e) \<noteq> None"
    proof (cases "e = d")
      case True
      with dlt show ?thesis by (simp add: f call_debounced_def)
    next
      case False
      with e have "e < length (debouncers s)" "timerId (debouncers s ! e)" by (simp_all add: f)
      from session_inv_timer [OF inv this] d False show ?thesis by simp
    qed
  qed
  then show ?thesis by (simp add: s'_def)
qed

lemma session_inv_isInExport:
  assumes "session_inv s"
  shows "session_inv (snd (isInExport now s))"
proof (cases "exportPromise s = None")
  case True
  show ?thesis by (rule session_inv_isInExport_idle [OF assms True])
next
  case False
  then obtain p where "exportPromise s = Some p" by blast
  then show ?thesis by (rule session_inv_isInExport_pending [OF assms])
qed

lemma configuration_debouncers [simp]:
  "configuration (s\<lparr>debouncers := x\<rparr>) = configuration s"
  by (simp add: configuration_def split: option.splits)

lemma rootDir_debouncers [simp]: "rootDir (s\<lparr>debouncers := x\<rparr>) = rootDir s"
  by (simp add: rootDir_def)

lemma exportPath_debouncers [simp]: "exportPath c (s\<lparr>debouncers := x\<rparr>) = exportPath c s"
  by (simp add: exportPath_def)

text \<open>What the expiry of a timer does, case by case.\<close>

lemma timerExpired_idle:
  "\<not> (d < length (debouncers s) \<and> timerId (debouncers s ! d) \<and> shouldInvoke now (debouncers s ! d))
   \<Longrightarrow> timerExpired c now d s = s"
  by (auto simp: timerExpired_def)

lemma timerExpired_fires:
  assumes inv: "session_inv s" and dlt: "d < length (debouncers s)"
    and armed: "timerId (debouncers s ! d)" and due: "shouldInvoke now (debouncers s ! d)"
  shows "\<exists>p. exportPromise s = Some p \<and> endDebounce s = Some d
           \<and> p < length (promises s) \<and> promises s ! p = Pending
           \<and> exportPromise (timerExpired c now d s) = None
           \<and> exportPromiseResolve (timerExpired c now d s) = Some p
           \<and> endDebounce (timerExpired c now d s) = None
           \<and> promises (timerExpired c now d s) = (promises s)[p := Resolved (exportPath c s)]
           \<and> debouncers (timerExpired c now d s) =
               (debouncers s)[d := (debouncers s ! d)\<lparr>timerId := False\<rparr>]"
proof -
  from session_inv_timer [OF inv dlt armed] have ed: "endDebounce s = Some d" by simp
  with session_inv_pair [OF inv] have "exportPromise s \<noteq> None" by simp
  then obtain p where p: "exportPromise s = Some p" by blast
  note pp = session_inv_promise [OF inv p]
  have "exportPromise (timerExpired c now d s) = None
      \<and> exportPromiseResolve (timerExpired c now d s) = Some p
      \<and> endDebounce (timerExpired c now d s) = None
      \<and> promises (timerExpired c now d s) = (promises s)[p := Resolved (exportPath c s)]
      \<and> debouncers (timerExpired c now d s) =
               (debouncers s)[d := (debouncers s ! d)\<lparr>timerId := False\<rparr>]"
    using dlt armed due p pp
    by (simp add: timerExpired_def endExport_def resolve_promise_def)
  with p ed pp show ?thesis by blast
qed

lemma session_inv_timerExpired:
  assumes inv: "session_inv s"
  shows "session_inv (timerExpired c now d s)"
proof (cases "d < length (debouncers s) \<and> timerId (debouncers s ! d)
              \<and> shouldInvoke now (debouncers s ! d)")
  case False
  show ?thesis unfolding timerExpired_idle [OF False] by (rule inv)
next
  case True
  define s' where "s' = timerExpired c now d s"
  from True timerExpired_fires [of s d now c, OF inv, folded s'_def]
  obtain p where p: "exportPromise s = Some p" and ed: "endDebounce s = Some d"
    and plt: "p < length (promises s)"
    and f: "exportPromise s' = None" "exportPromiseResolve s' = Some p" "endDebounce s' = None"
      "promises s' = (promises s)[p := Resolved (exportPath c s)]"
      "debouncers s' = (debouncers s)[d := (debouncers s ! d)\<lparr>timerId := False\<rparr>]"
    by blast
  from True have dlt: "d < length (debouncers s)" by simp
  have "session_inv s'"
  proof (rule session_invI)
    show "(exportPromise s' = None) = (endDebounce s' = None)" by (simp add: f)
  next
    fix q assume "exportPromise s' = Some q"
    then show "q < length (promises s') \<and> promises s' ! q = Pending \<and> exportPromiseResolve s' = Some q"
      by (simp add: f)
  next
    fix i assume i: "i < length (promises s')" "promises s' ! i = Pending"
    have "i \<noteq> p"
    proof
      assume "i = p"
      with i plt show False by (simp add: f)
    qed
    with i have "i < length (promises s)" "promises s ! i = Pending" by (simp_all add: f)
    from session_inv_pending [OF inv this] p \<open>i \<noteq> p\<close> have False by simp
    then show "exportPromise s' = Some i" ..
  next
    fix e assume "endDebounce s' = Some e"
    then show "e < length (debouncers s')" by (simp add: f)
  next
    fix e assume e: "e < length (debouncers s')" "timerId (debouncers s' ! e)"
    have "e \<noteq> d"
    proof
      assume "e = d"
      with e dlt show False by (simp add: f)
    qed
    with e have "e < length (debouncers s)" "timerId (debouncers s ! e)" by (simp_all add: f)
    from session_inv_timer [OF inv this] ed \<open>e \<noteq> d\<close> have False by simp
    then show "endDebounce s' = Some e \<and> lastCallTime (debouncers s' ! e) \<noteq> None" ..
  qed
  then show ?thesis by (simp add: s'_def)
qed

lemma session_inv_step: "session_inv s \<Longrightarrow> session_inv (step c e s)"
proof -
  assume inv: "session_inv s"
  obtain now ev where e: "e = (now, ev)" by (cases e)
  show ?thesis
  proof (cases ev)
    case StartExport
    with e show ?thesis using session_inv_startExport [OF inv] by simp
  next
    case ReadIsInExport
    with e show ?thesis using session_inv_isInExport [OF inv] by simp
  next
    case (TimerExpired d)
    with e show ?thesis using session_inv_timerExpired [OF inv] by simp
  qed (rule session_inv_frame [OF _ inv], simp add: e)+
qed

lemma session_inv_run: "session_inv s \<Longrightarrow> session_inv (run c es s)"
  by (induction es arbitrary: s) (simp_all add: session_inv_step)

lemma at_most_one_satisfies:
  "\<forall>i < length xs. \<forall>j < length xs. P (xs ! i) \<longrightarrow> P (xs ! j) \<longrightarrow> i = j
   \<Longrightarrow> length (filter P xs) \<le> 1"
proof (induction xs)
  case Nil
  then show ?case by simp
next
  case (Cons x xs)
  have tl: "\<forall>i < length xs. \<forall>j < length xs. P (xs ! i) \<longrightarrow> P (xs ! j) \<longrightarrow> i = j"
  proof (intro allI impI)
    fix i j assume "i < length xs" "j < length xs" "P (xs ! i)" "P (xs ! j)"
    with Cons.prems [rule_format, of "Suc i" "Suc j"] show "i = j" by simp
  qed
  show ?case
  proof (cases "P x")
    case False
    with Cons.IH [OF tl] show ?thesis by simp
  next
    case True
    have "filter P xs = []"
    proof (rule ccontr)
      assume "filter P xs \<noteq> []"
      then obtain y where "y \<in> set xs" "P y" by (auto simp: filter_empty_conv)
      then obtain i where "i < length xs" "P (xs ! i)" by (auto simp: in_set_conv_nth)
      with Cons.prems [rule_format, of 0 "Suc i"] True show False by simp
    qed
    with True show ?thesis by simp
  qed
qed

lemma session_inv_one_pending:
  assumes "session_inv s"
  shows "length (filter (\<lambda>x. x = Pending) (promises s)) \<le> 1"
proof (rule at_most_one_satisfies, intro allI impI)
  fix i j assume "i < length (promises s)" "j < length (promises s)"
    "promises s ! i = Pending" "promises s ! j = Pending"
  then have "exportPromise s = Some i" "exportPromise s = Some j"
    using session_inv_pending [OF assms] by blast+
  then show "i = j" by simp
qed

section \<open>Decimal numerals\<close>

lemma show_nat_nonempty: "show_nat n \<noteq> []"
  by (subst show_nat.simps) simp

lemma digit_in: "digit d \<in> set ''0123456789''"
proof -
  have "d mod 10 < length ''0123456789''" by simp
  then show ?thesis unfolding digit_def by (rule nth_mem)
qed

lemma show_nat_digits: "set (show_nat n) \<subseteq> set ''0123456789''"
proof (induction n rule: show_nat.induct)
  case (1 n)
  show ?case
  proof (cases "n < 10")
    case True
    then show ?thesis using digit_in [of n] by (subst show_nat.simps) simp
  next
    case False
    then show ?thesis using 1 digit_in [of "n mod 10"] by (subst show_nat.simps) simp
  qed
qed

section \<open>The address of the presentation\<close>

text \<open>
  Claim C2.  \<^verbatim>\<open>getUri(withPosition)\<close> is absent exactly when the server is not listening
  or no document is bound.  Otherwise, with \<open>base\<close> the server's address as the template
  literal prints it, \<^verbatim>\<open>getUri(true)\<close> is \<open>base#/h/v/t\<close> with \<open>h\<close> and \<open>v\<close> the
  bound document's current position and \<open>t\<close> the clock in decimal, and
  \<^verbatim>\<open>getUri(false)\<close> is \<open>base\<close> alone, so it has a \<open>#\<close> only if \<open>base\<close> has one.
\<close>

theorem getUri_contract:
  "(getUri now withPosition s = None) = (\<not> isListening (server s) \<or> editorContext s = None)
   \<and> (isListening (server s) \<and> editorContext s = Some ctx \<longrightarrow>
        getUri now True s =
          Some (template_str (uri (server s)) @ ''#/'' @ show_int (horizontal (position ctx))
                @ ''/'' @ show_int (vertical (position ctx)) @ ''/'' @ show_nat now)
        \<and> getUri now False s = Some (template_str (uri (server s)))
        \<and> set (show_nat now) \<subseteq> set ''0123456789''
        \<and> (CHR ''#'' \<notin> set (template_str (uri (server s))) \<longrightarrow>
             (\<forall>u. getUri now False s = Some u \<longrightarrow> CHR ''#'' \<notin> set u)))"
  using show_nat_digits [of now]
  by (simp add: getUri_def Let_def split: option.splits)

theorem getUri_contract_witness:
  "getUri 1700000000000 True demo_container = Some ''http://localhost:1948/#/2/1/1700000000000''
   \<and> getUri 1700000000000 False demo_container = Some ''http://localhost:1948/''
   \<and> getUri 1700000000000 True demo_unbound = None"
proof -
  have h: "isListening (server demo_container) \<and> editorContext demo_container = Some demo_context"
    by (simp add: demo_container_def demo_server_def)
  have u: "template_str (uri (server demo_container)) = ''http://localhost:1948/''"
    by (simp add: demo_container_def demo_server_def template_str_def)
  have p: "show_int (horizontal (position demo_context)) = ''2''"
    "show_int (vertical (position demo_context)) = ''1''"
    by (simp_all add: demo_context_def show_int_def show_nat.simps digit_def)
  have t: "show_nat 1700000000000 = ''1700000000000''"
    by (simp add: show_nat.simps digit_def)
  have n: "editorContext demo_unbound = None"
    by (simp add: demo_unbound_def)
  from getUri_contract [of 1700000000000 True demo_container demo_context] h
    getUri_contract [of 1700000000000 True demo_unbound demo_context] n
  show ?thesis by (simp add: u p t)
qed

section \<open>The render surface\<close>

text \<open>
  Claim C10.  When a surface is bound (handed in with the call, or kept from an earlier
  one) and \<^verbatim>\<open>getUri()\<close> is absent, \<^verbatim>\<open>refreshWebView\<close> still writes the surface's
  content: the page it writes has the text \<open>null\<close> as the source of its frame.
\<close>

theorem refreshWebView_writes_null:
  assumes "(case view of Some v \<Rightarrow> Some v | None \<Rightarrow> webView s) = Some w"
    and "getUri now True s = None"
  shows "refreshWebView now view s =
           s\<lparr>webView := Some w,
             trace := trace s @
               [WebviewHtml w
                 (''<style>html, body, iframe { height: 100% }</style>'' @ [CHR 0x0A]
                  @ ''      <iframe src='' @ [CHR 0x22] @ ''null'' @ [CHR 0x22]
                  @ '' frameBorder='' @ [CHR 0x22] @ ''0'' @ [CHR 0x22]
                  @ '' style='' @ [CHR 0x22] @ ''width: 100%; height: 100%'' @ [CHR 0x22]
                  @ '' />'')]\<rparr>"
proof -
  have g: "getUri now True (s\<lparr>webView := x\<rparr>) = getUri now True s" for x
    by (simp add: getUri_def split: option.splits)
  from assms show ?thesis
    by (cases view)
       (simp_all add: refreshWebView_def Let_def g emit_def webview_html_def template_str_def)
qed

theorem refreshWebView_writes_null_witness:
  "trace (refreshWebView 5 None demo_unbound) =
     [WebviewHtml 7
       (''<style>html, body, iframe { height: 100% }</style>'' @ [CHR 0x0A]
        @ ''      <iframe src='' @ [CHR 0x22] @ ''null'' @ [CHR 0x22]
        @ '' frameBorder='' @ [CHR 0x22] @ ''0'' @ [CHR 0x22]
        @ '' style='' @ [CHR 0x22] @ ''width: 100%; height: 100%'' @ [CHR 0x22]
        @ '' />'')]
   \<and> webView (refreshWebView 5 None demo_unbound) = Some 7"
proof -
  have a: "(case None of Some v \<Rightarrow> Some v | None \<Rightarrow> webView demo_unbound) = Some 7"
    by (simp add: demo_unbound_def demo_container_def)
  have b: "getUri 5 True demo_unbound = None"
    by (simp add: getUri_def demo_unbound_def)
  have c: "trace demo_unbound = []"
    by (simp add: demo_unbound_def demo_container_def)
  show ?thesis
    unfolding refreshWebView_writes_null [OF a b] by (simp add: c)
qed

section \<open>Going to a slide\<close>

text \<open>
  Claim C9.  With no document bound, \<^verbatim>\<open>goToSlide\<close> is just a refresh of the render
  surface: the Container's fields stay as they are, and the only thing that happens is
  the write to the surface, if one is bound.  The call is handed on to the bound
  document only when there is one.
\<close>

theorem goToSlide_without_binding:
  "(editorContext s = None \<longrightarrow>
      goToSlide c now topindex verticalIndex s = refreshWebView now None s
      \<and> goToSlide c now topindex verticalIndex s =
          s\<lparr>trace := trace s @
               (case webView s of
                  Some w \<Rightarrow> [WebviewHtml w (webview_html None)]
                | None \<Rightarrow> [])\<rparr>)
   \<and> (\<forall>ctx. editorContext s = Some ctx \<longrightarrow>
          goToSlide c now topindex verticalIndex s =
            refreshWebView now None
              (emit (EditorContextGoToSlide topindex verticalIndex)
                 (s\<lparr>editorContext := Some (ctxGoToSlide c topindex verticalIndex ctx)\<rparr>)))"
  by (simp add: goToSlide_def refreshWebView_def emit_def getUri_def Let_def
        split: option.splits)

theorem goToSlide_without_binding_witness:
  "goToSlide demo_collab 5 2 1 demo_unbound =
     demo_unbound\<lparr>trace := [WebviewHtml 7 (webview_html None)]\<rparr>
   \<and> trace (goToSlide demo_collab 5 2 1 demo_container) =
       [EditorContextGoToSlide 2 1,
        WebviewHtml 7 (webview_html (Some ''http://localhost:1948/#/2/1/5''))]"
proof -
  have n: "editorContext demo_unbound = None" "webView demo_unbound = Some 7"
    "trace demo_unbound = []"
    by (simp_all add: demo_unbound_def demo_container_def)
  have b: "editorContext demo_container = Some demo_context"
    by (simp add: demo_container_def)
  have g: "trace (refreshWebView 5 None
             (emit (EditorContextGoToSlide 2 1)
                (demo_container\<lparr>editorContext := Some (ctxGoToSlide demo_collab 2 1 demo_context)\<rparr>))) =
       [EditorContextGoToSlide 2 1,
        WebviewHtml 7 (webview_html (Some ''http://localhost:1948/#/2/1/5''))]"
    by (simp add: refreshWebView_def emit_def getUri_def Let_def demo_container_def
          demo_collab_def demo_context_def demo_server_def template_str_def show_int_def
          show_nat.simps digit_def)
  from goToSlide_without_binding [of demo_unbound demo_collab 5 2 1] n(1)
  have "goToSlide demo_collab 5 2 1 demo_unbound =
     demo_unbound\<lparr>trace := trace demo_unbound @
        (case webView demo_unbound of
           Some w \<Rightarrow> [WebviewHtml w (webview_html None)]
         | None \<Rightarrow> [])\<rparr>"
    by blast
  then have u: "goToSlide demo_collab 5 2 1 demo_unbound =
     demo_unbound\<lparr>trace := [WebviewHtml 7 (webview_html None)]\<rparr>"
    by (simp add: n)
  from goToSlide_without_binding [of demo_container demo_collab 5 2 1] b
  have "goToSlide demo_collab 5 2 1 demo_container =
     refreshWebView 5 None
       (emit (EditorContextGoToSlide 2 1)
          (demo_container\<lparr>editorContext := Some (ctxGoToSlide demo_collab 2 1 demo_context)\<rparr>))"
    by blast
  with g have "trace (goToSlide demo_collab 5 2 1 demo_container) =
       [EditorContextGoToSlide 2 1,
        WebviewHtml 7 (webview_html (Some ''http://localhost:1948/#/2/1/5''))]"
    by (simp only:)
  with u show ?thesis by (rule conjI)
qed

section \<open>The effective configuration\<close>

text \<open>
  Claim C8.  A read of \<^verbatim>\<open>configuration\<close> is computed from the fields as they are at the
  read: property by property it is the bound document's front-matter value when a
  document with front matter is bound and has the property, and the base value
  otherwise.  So the read that follows a reload of the base configuration, or the
  binding of another document, shows the new base and the new document.
\<close>

theorem configuration_read:
  "configuration s k =
     (case editorContext s of
        None \<Rightarrow> priv_configuration s k
      | Some ctx \<Rightarrow>
          if hasfrontConfig ctx
          then (case documentOptions ctx k of Some v \<Rightarrow> Some v | None \<Rightarrow> priv_configuration s k)
          else priv_configuration s k)
   \<and> (affects (extensionId c) \<longrightarrow>
        configuration (onDidChangeConfiguration c affects loaded s) k =
          (case editorContext s of
             None \<Rightarrow> loaded k
           | Some ctx \<Rightarrow>
               if hasfrontConfig ctx
               then (case documentOptions ctx k of Some v \<Rightarrow> Some v | None \<Rightarrow> loaded k)
               else loaded k))
   \<and> (languageId e = ''markdown'' \<longrightarrow>
        configuration (onDidChangeActiveTextEditor c now (Some e) s) k =
          (let ctx = newEditorContext c e (getDocumentOptions c (configuration s)) in
           if hasfrontConfig ctx
           then (case documentOptions ctx k of Some v \<Rightarrow> Some v | None \<Rightarrow> priv_configuration s k)
           else priv_configuration s k))"
proof (intro conjI impI)
  show "configuration s k =
     (case editorContext s of
        None \<Rightarrow> priv_configuration s k
      | Some ctx \<Rightarrow>
          if hasfrontConfig ctx
          then (case documentOptions ctx k of Some v \<Rightarrow> Some v | None \<Rightarrow> priv_configuration s k)
          else priv_configuration s k)"
    by (simp add: configuration_def map_add_def split: option.splits)
next
  assume "affects (extensionId c)"
  then show "configuration (onDidChangeConfiguration c affects loaded s) k =
          (case editorContext s of
             None \<Rightarrow> loaded k
           | Some ctx \<Rightarrow>
               if hasfrontConfig ctx
               then (case documentOptions ctx k of Some v \<Rightarrow> Some v | None \<Rightarrow> loaded k)
               else loaded k)"
    by (simp add: configuration_def onDidChangeConfiguration_def map_add_def split: option.splits)
next
  assume md: "languageId e = ''markdown''"
  define s' where "s' = onDidChangeActiveTextEditor c now (Some e) s"
  have "editorContext s' = Some (newEditorContext c e (getDocumentOptions c (configuration s)))"
    and "priv_configuration s' = priv_configuration s"
    using md by (simp_all add: s'_def onDidChangeActiveTextEditor_def Let_def)
  then have "configuration s' k =
          (let ctx = newEditorContext c e (getDocumentOptions c (configuration s)) in
           if hasfrontConfig ctx
           then (case documentOptions ctx k of Some v \<Rightarrow> Some v | None \<Rightarrow> priv_configuration s k)
           else priv_configuration s k)"
    by (simp add: configuration_def [of s'] map_add_def Let_def split: option.splits)
  then show "configuration (onDidChangeActiveTextEditor c now (Some e) s) k =
          (let ctx = newEditorContext c e (getDocumentOptions c (configuration s)) in
           if hasfrontConfig ctx
           then (case documentOptions ctx k of Some v \<Rightarrow> Some v | None \<Rightarrow> priv_configuration s k)
           else priv_configuration s k)"
    by (simp add: s'_def)
qed

theorem configuration_read_witness:
  "configuration demo_container ''theme'' = Some (CStr ''night'')
   \<and> configuration demo_container ''exportHTMLPath'' = Some (CStr ''/out'')
   \<and> configuration
        (onDidChangeConfiguration demo_collab (\<lambda>section. section = ''revealjs'')
           [''theme'' \<mapsto> CStr ''white'', ''width'' \<mapsto> CNum 960] demo_container) ''width''
       = Some (CNum 960)
   \<and> configuration (onDidChangeActiveTextEditor demo_collab 5 (Some demo_editor) demo_container)
        ''theme'' = Some (CStr ''black'')"
proof -
  have b: "editorContext demo_container = Some demo_context"
    "priv_configuration demo_container = [''theme'' \<mapsto> CStr ''black'', ''exportHTMLPath'' \<mapsto> CStr ''/out'']"
    by (simp_all add: demo_container_def)
  have x: "hasfrontConfig demo_context" "documentOptions demo_context = [''theme'' \<mapsto> CStr ''night'']"
    by (simp_all add: demo_context_def)
  have a: "(\<lambda>section. section = ''revealjs'') (extensionId demo_collab)"
    by (simp add: demo_collab_def)
  have m: "languageId demo_editor = ''markdown''"
    by (simp add: demo_editor_def)
  have f: "\<not> hasfrontConfig (newEditorContext demo_collab demo_editor opts)" for opts
    by (simp add: demo_collab_def)
  from configuration_read [of demo_container "''theme''"]
    configuration_read [of demo_container "''exportHTMLPath''"]
    configuration_read [of demo_container "''width''" "\<lambda>section. section = ''revealjs''"
      demo_collab "[''theme'' \<mapsto> CStr ''white'', ''width'' \<mapsto> CNum 960]"]
    configuration_read [of demo_container "''theme''" "\<lambda>section. False" demo_collab
      Map.empty demo_editor 5]
    a m
  show ?thesis by (simp add: b x f Let_def)
qed

section \<open>The selection-changed handler\<close>

text \<open>
  Claim C7.  The handler changes nothing and calls nothing when no document is bound,
  when the event comes from an editor other than the bound one, or when the event has no
  selection.  Otherwise it does five things in this order: it hands the cursor of the
  first selection to the bound document, refreshes the render surface (which, when a
  surface is bound, writes the address of the position as it is after that first step
  and before the document's refresh), refreshes the bound document, updates the status
  bar, and updates the slide explorer.
\<close>

theorem selection_changed_order:
  "(editorContext s = None \<longrightarrow> onDidChangeTextEditorSelection c now event s = s)
   \<and> (\<forall>ctx. editorContext s = Some ctx
          \<and> editor_ref (textEditor event) \<noteq> editor_ref (editor ctx) \<longrightarrow>
          onDidChangeTextEditorSelection c now event s = s)
   \<and> (selections event = [] \<longrightarrow> onDidChangeTextEditorSelection c now event s = s)
   \<and> (\<forall>ctx sel rest.
          editorContext s = Some ctx
          \<and> editor_ref (textEditor event) = editor_ref (editor ctx)
          \<and> selections event = sel # rest \<longrightarrow>
          onDidChangeTextEditorSelection c now event s =
            s\<lparr>editorContext := Some (refresh c (updatePosition c (active sel) ctx)),
              trace := trace s
                @ [EditorContextUpdatePosition (active sel)]
                @ (case webView s of
                     Some w \<Rightarrow>
                       [WebviewHtml w (webview_html (getUri now True
                          (s\<lparr>editorContext := Some (updatePosition c (active sel) ctx)\<rparr>)))]
                   | None \<Rightarrow> [])
                @ [EditorContextRefresh, StatusBarUpdate, SlidesExplorerUpdate]\<rparr>)"
proof (intro conjI allI impI)
  assume "editorContext s = None"
  then show "onDidChangeTextEditorSelection c now event s = s"
    by (simp add: onDidChangeTextEditorSelection_def)
next
  fix ctx
  assume "editorContext s = Some ctx \<and> editor_ref (textEditor event) \<noteq> editor_ref (editor ctx)"
  then show "onDidChangeTextEditorSelection c now event s = s"
    by (simp add: onDidChangeTextEditorSelection_def)
next
  assume "selections event = []"
  then show "onDidChangeTextEditorSelection c now event s = s"
    by (simp add: onDidChangeTextEditorSelection_def split: option.splits)
next
  fix ctx sel rest
  assume a: "editorContext s = Some ctx
          \<and> editor_ref (textEditor event) = editor_ref (editor ctx)
          \<and> selections event = sel # rest"
  have g: "getUri now True (emit e (s\<lparr>editorContext := x\<rparr>)) = getUri now True (s\<lparr>editorContext := x\<rparr>)"
    for e x
    by (simp add: getUri_def emit_def split: option.splits)
  from a show "onDidChangeTextEditorSelection c now event s =
            s\<lparr>editorContext := Some (refresh c (updatePosition c (active sel) ctx)),
              trace := trace s
                @ [EditorContextUpdatePosition (active sel)]
                @ (case webView s of
                     Some w \<Rightarrow>
                       [WebviewHtml w (webview_html (getUri now True
                          (s\<lparr>editorContext := Some (updatePosition c (active sel) ctx)\<rparr>)))]
                   | None \<Rightarrow> [])
                @ [EditorContextRefresh, StatusBarUpdate, SlidesExplorerUpdate]\<rparr>"
    by (simp add: onDidChangeTextEditorSelection_def refreshWebView_def g Let_def
          split: option.splits)
qed

theorem selection_changed_order_witness:
  "trace (onDidChangeTextEditorSelection demo_collab 5 demo_event demo_container) =
     [EditorContextUpdatePosition \<lparr>line = 3, character = 4\<rparr>,
      WebviewHtml 7 (webview_html (Some ''http://localhost:1948/#/3/0/5'')),
      EditorContextRefresh, StatusBarUpdate, SlidesExplorerUpdate]
   \<and> map_option position
        (editorContext (onDidChangeTextEditorSelection demo_collab 5 demo_event demo_container))
       = Some \<lparr>horizontal = 0, vertical = 0\<rparr>
   \<and> onDidChangeTextEditorSelection demo_collab 5 demo_event demo_unbound = demo_unbound
   \<and> onDidChangeTextEditorSelection demo_collab 5 (demo_event\<lparr>selections := []\<rparr>) demo_container
       = demo_container
   \<and> onDidChangeTextEditorSelection demo_collab 5 (demo_event\<lparr>textEditor := demo_other_editor\<rparr>)
        demo_container = demo_container"
proof -
  let ?sel = "\<lparr>anchor = \<lparr>line = 1, character = 0\<rparr>, active = \<lparr>line = 3, character = 4\<rparr>\<rparr>"
  have b: "editorContext demo_container = Some demo_context
          \<and> editor_ref (textEditor demo_event) = editor_ref (editor demo_context)
          \<and> selections demo_event = ?sel # []"
    by (simp add: demo_container_def demo_event_def demo_context_def)
  from selection_changed_order [of demo_container demo_collab 5 demo_event] b
  have "onDidChangeTextEditorSelection demo_collab 5 demo_event demo_container =
          demo_container
            \<lparr>editorContext := Some (refresh demo_collab (updatePosition demo_collab (active ?sel) demo_context)),
             trace := trace demo_container
                @ [EditorContextUpdatePosition (active ?sel)]
                @ (case webView demo_container of
                     Some w \<Rightarrow>
                       [WebviewHtml w (webview_html (getUri 5 True
                          (demo_container\<lparr>editorContext :=
                              Some (updatePosition demo_collab (active ?sel) demo_context)\<rparr>)))]
                   | None \<Rightarrow> [])
                @ [EditorContextRefresh, StatusBarUpdate, SlidesExplorerUpdate]\<rparr>"
    by blast
  then have first: "trace (onDidChangeTextEditorSelection demo_collab 5 demo_event demo_container) =
     [EditorContextUpdatePosition \<lparr>line = 3, character = 4\<rparr>,
      WebviewHtml 7 (webview_html (Some ''http://localhost:1948/#/3/0/5'')),
      EditorContextRefresh, StatusBarUpdate, SlidesExplorerUpdate]
   \<and> map_option position
        (editorContext (onDidChangeTextEditorSelection demo_collab 5 demo_event demo_container))
       = Some \<lparr>horizontal = 0, vertical = 0\<rparr>"
    by (simp add: getUri_def Let_def demo_container_def demo_collab_def demo_context_def
          demo_server_def template_str_def show_int_def show_nat.simps digit_def)
  have "editorContext demo_unbound = None"
    by (simp add: demo_unbound_def)
  with selection_changed_order [of demo_unbound demo_collab 5 demo_event]
  have second: "onDidChangeTextEditorSelection demo_collab 5 demo_event demo_unbound = demo_unbound"
    by blast
  have "selections (demo_event\<lparr>selections := []\<rparr>) = []"
    by simp
  with selection_changed_order [of demo_container demo_collab 5 "demo_event\<lparr>selections := []\<rparr>"]
  have third: "onDidChangeTextEditorSelection demo_collab 5 (demo_event\<lparr>selections := []\<rparr>)
      demo_container = demo_container"
    by blast
  have "editorContext demo_container = Some demo_context
      \<and> editor_ref (textEditor (demo_event\<lparr>textEditor := demo_other_editor\<rparr>))
          \<noteq> editor_ref (editor demo_context)"
    by (simp add: demo_container_def demo_context_def demo_other_editor_def demo_editor_def)
  with selection_changed_order [of demo_container demo_collab 5
      "demo_event\<lparr>textEditor := demo_other_editor\<rparr>"]
  have fourth: "onDidChangeTextEditorSelection demo_collab 5
      (demo_event\<lparr>textEditor := demo_other_editor\<rparr>) demo_container = demo_container"
    by blast
  from first second third fourth show ?thesis by blast
qed

section \<open>Changing the active editor\<close>

lemma getUri_absent:
  "(getUri now withPosition s = None) = (\<not> isListening (server s) \<or> editorContext s = None)"
  by (simp add: getUri_def Let_def split: option.splits)

lemma active_editor_server:
  "server (onDidChangeActiveTextEditor c now ed s) = serverRefresh c (serverStart c (server s))"
  by (simp add: onDidChangeActiveTextEditor_def Let_def split: option.splits)

lemma active_editor_context:
  "editorContext (onDidChangeActiveTextEditor c now ed s) =
     (case ed of
        None \<Rightarrow> editorContext s
      | Some e \<Rightarrow>
          if languageId e = ''markdown''
          then Some (newEditorContext c e (getDocumentOptions c (configuration s)))
          else editorContext s)"
  by (simp add: onDidChangeActiveTextEditor_def Let_def split: option.splits)

text \<open>
  Claim C1, as the code has it.  The handler assigns the binding only when the new editor
  shows markdown, and nothing else in the class writes the field after construction.
  So when the active editor changes to one that does not show markdown, or to none, the
  binding stays what it was: \<^verbatim>\<open>slides\<close> and \<^verbatim>\<open>slideCount\<close> report what they reported
  before, and \<^verbatim>\<open>getUri\<close> is absent exactly when the server does not listen after the
  handler's start and refresh, or no document was bound before.  They report the empty
  sequence, 0 and absent when no document was bound before.  When the new editor shows
  markdown, the binding is replaced by a fresh one made for that editor.
\<close>

theorem active_editor_changed_binding:
  "((ed = None \<or> (\<exists>e. ed = Some e \<and> languageId e \<noteq> ''markdown'')) \<longrightarrow>
      editorContext (onDidChangeActiveTextEditor c now ed s) = editorContext s
      \<and> get_slides (onDidChangeActiveTextEditor c now ed s) = get_slides s
      \<and> get_slideCount (onDidChangeActiveTextEditor c now ed s) = get_slideCount s
      \<and> (getUri t withPosition (onDidChangeActiveTextEditor c now ed s) = None) =
          (\<not> isListening (serverRefresh c (serverStart c (server s))) \<or> editorContext s = None)
      \<and> (editorContext s = None \<longrightarrow>
            get_slides (onDidChangeActiveTextEditor c now ed s) = []
            \<and> get_slideCount (onDidChangeActiveTextEditor c now ed s) = 0
            \<and> getUri t withPosition (onDidChangeActiveTextEditor c now ed s) = None))
   \<and> (\<forall>e. ed = Some e \<and> languageId e = ''markdown'' \<longrightarrow>
          editorContext (onDidChangeActiveTextEditor c now ed s) =
            Some (newEditorContext c e (getDocumentOptions c (configuration s))))"
proof (intro conjI impI allI)
  fix e
  assume "ed = Some e \<and> languageId e = ''markdown''"
  then show "editorContext (onDidChangeActiveTextEditor c now ed s) =
            Some (newEditorContext c e (getDocumentOptions c (configuration s)))"
    by (simp add: active_editor_context)
next
  assume other: "ed = None \<or> (\<exists>e. ed = Some e \<and> languageId e \<noteq> ''markdown'')"
  then show kept: "editorContext (onDidChangeActiveTextEditor c now ed s) = editorContext s"
    by (auto simp: active_editor_context)
  from kept show "get_slides (onDidChangeActiveTextEditor c now ed s) = get_slides s"
    by (simp add: get_slides_def)
  from kept show "get_slideCount (onDidChangeActiveTextEditor c now ed s) = get_slideCount s"
    by (simp add: get_slideCount_def)
  from kept show "(getUri t withPosition (onDidChangeActiveTextEditor c now ed s) = None) =
          (\<not> isListening (serverRefresh c (serverStart c (server s))) \<or> editorContext s = None)"
    by (simp add: getUri_absent active_editor_server)
  assume "editorContext s = None"
  with kept have none: "editorContext (onDidChangeActiveTextEditor c now ed s) = None"
    by simp
  from none show "get_slides (onDidChangeActiveTextEditor c now ed s) = []"
    by (simp add: get_slides_def)
  from none show "get_slideCount (onDidChangeActiveTextEditor c now ed s) = 0"
    by (simp add: get_slideCount_def)
  from none show "getUri t withPosition (onDidChangeActiveTextEditor c now ed s) = None"
    by (simp add: getUri_absent)
qed

theorem active_editor_changed_binding_witness:
  "editorContext (onDidChangeActiveTextEditor demo_collab 5 None demo_container)
     = Some demo_context
   \<and> get_slideCount (onDidChangeActiveTextEditor demo_collab 5 None demo_container) = 5
   \<and> get_slides (onDidChangeActiveTextEditor demo_collab 5 (Some demo_other_editor) demo_unbound) = []
   \<and> getUri 6 True (onDidChangeActiveTextEditor demo_collab 5 (Some demo_other_editor) demo_unbound)
       = None
   \<and> map_option editor
        (editorContext (onDidChangeActiveTextEditor demo_collab 5 (Some demo_editor) demo_unbound))
       = Some demo_editor"
proof -
  have o: "Some demo_other_editor = None
      \<or> (\<exists>e. Some demo_other_editor = Some e \<and> languageId e \<noteq> ''markdown'')"
    by (simp add: demo_other_editor_def)
  have m: "Some demo_editor = Some demo_editor \<and> languageId demo_editor = ''markdown''"
    by (simp add: demo_editor_def)
  have u: "editorContext demo_unbound = None"
    by (simp add: demo_unbound_def)
  have b: "editorContext demo_container = Some demo_context" "get_slideCount demo_container = 5"
    by (simp_all add: demo_container_def get_slideCount_def demo_context_def)
  from active_editor_changed_binding [of None demo_collab 5 demo_container 6 True]
  have first: "editorContext (onDidChangeActiveTextEditor demo_collab 5 None demo_container)
     = Some demo_context
   \<and> get_slideCount (onDidChangeActiveTextEditor demo_collab 5 None demo_container) = 5"
    by (simp add: b)
  from active_editor_changed_binding [of "Some demo_other_editor" demo_collab 5 demo_unbound 6 True]
    o u
  have second: "get_slides (onDidChangeActiveTextEditor demo_collab 5 (Some demo_other_editor) demo_unbound) = []
   \<and> getUri 6 True (onDidChangeActiveTextEditor demo_collab 5 (Some demo_other_editor) demo_unbound)
       = None"
    by blast
  from active_editor_changed_binding [of "Some demo_editor" demo_collab 5 demo_unbound 6 True] m
  have "editorContext (onDidChangeActiveTextEditor demo_collab 5 (Some demo_editor) demo_unbound) =
      Some (newEditorContext demo_collab demo_editor
              (getDocumentOptions demo_collab (configuration demo_unbound)))"
    by blast
  then have third: "map_option editor
        (editorContext (onDidChangeActiveTextEditor demo_collab 5 (Some demo_editor) demo_unbound))
       = Some demo_editor"
    by (simp add: demo_collab_def)
  from first second third show ?thesis by blast
qed

text \<open>
  The claim as the specification states it fails: with a markdown document of five
  slides bound and the server listening, the active editor changes to a plain-text
  editor, and afterwards the binding is still there, the five slides are still
  reported, and the address is not absent.
\<close>

theorem active_editor_changed_counterexample:
  "languageId demo_other_editor \<noteq> ''markdown''
   \<and> editorContext (onDidChangeActiveTextEditor demo_collab 5 (Some demo_other_editor) demo_container)
       \<noteq> None
   \<and> editorContext (onDidChangeActiveTextEditor demo_collab 5 None demo_container) \<noteq> None
   \<and> get_slides (onDidChangeActiveTextEditor demo_collab 5 (Some demo_other_editor) demo_container)
       = [''one'', ''two'', ''three'', ''four'', ''five'']
   \<and> get_slideCount (onDidChangeActiveTextEditor demo_collab 5 (Some demo_other_editor) demo_container)
       = 5
   \<and> isListening (server (onDidChangeActiveTextEditor demo_collab 5 (Some demo_other_editor) demo_container))
   \<and> getUri 6 True (onDidChangeActiveTextEditor demo_collab 5 (Some demo_other_editor) demo_container)
       = Some ''http://localhost:1948/#/2/1/6''"
proof -
  have c: "editorContext (onDidChangeActiveTextEditor demo_collab 5 (Some demo_other_editor) demo_container)
      = Some demo_context"
    by (simp add: active_editor_context demo_other_editor_def demo_container_def)
  have s: "server (onDidChangeActiveTextEditor demo_collab 5 (Some demo_other_editor) demo_container)
      = demo_server"
    by (simp add: active_editor_server demo_collab_def)
  have p: "show_int (horizontal (position demo_context)) = ''2''"
    "show_int (vertical (position demo_context)) = ''1''" "show_nat 6 = ''6''"
    by (simp_all add: demo_context_def show_int_def show_nat.simps digit_def)
  have "getUri 6 True (onDidChangeActiveTextEditor demo_collab 5 (Some demo_other_editor) demo_container)
       = Some ''http://localhost:1948/#/2/1/6''"
    by (simp add: getUri_def c s p Let_def demo_server_def template_str_def)
  moreover have "slides demo_context = [''one'', ''two'', ''three'', ''four'', ''five'']"
    "slideCount demo_context = 5"
    by (simp_all add: demo_context_def)
  moreover have "languageId demo_other_editor \<noteq> ''markdown''"
    by (simp add: demo_other_editor_def)
  moreover have "editorContext (onDidChangeActiveTextEditor demo_collab 5 None demo_container) \<noteq> None"
    by (simp add: active_editor_context demo_container_def)
  ultimately show ?thesis
    by (simp add: c s get_slides_def get_slideCount_def demo_server_def)
qed

section \<open>Starting an export\<close>

lemma startExport_fst: "fst (startExport now s) = exportPromise (snd (startExport now s))"
  by (simp add: startExport_def Let_def)

lemma startExport_promise:
  "exportPromise (snd (startExport now s)) =
     (if exportPromise s = None then Some (length (promises s)) else exportPromise s)"
  using export_state_startExport [of now s] by (simp add: export_state_def split: if_splits)

lemma startExport_promises:
  "promises (snd (startExport now s)) =
     (if exportPromise s = None then promises s @ [Pending] else promises s)"
  using export_state_startExport [of now s] by (simp add: export_state_def split: if_splits)

text \<open>
  Claim C3.  \<^verbatim>\<open>startExport\<close> called while a session exists returns the session's own
  promise, the same reference, and leaves the session as it is: no promise and no
  debounced function is created.  Only a call with no session creates one, with a new
  pending promise.  Two calls in a row therefore return the same promise.
\<close>

theorem startExport_joins:
  "(\<forall>p. exportPromise s = Some p \<longrightarrow>
        fst (startExport now s) = Some p
        \<and> export_state (snd (startExport now s)) = export_state s)
   \<and> (exportPromise s = None \<longrightarrow>
        fst (startExport now s) = Some (length (promises s))
        \<and> exportPromise (snd (startExport now s)) = Some (length (promises s))
        \<and> promises (snd (startExport now s)) = promises s @ [Pending])
   \<and> fst (startExport now' (snd (startExport now s))) = fst (startExport now s)
   \<and> promises (snd (startExport now' (snd (startExport now s)))) = promises (snd (startExport now s))"
proof (intro conjI allI impI)
  fix p assume p: "exportPromise s = Some p"
  then show "fst (startExport now s) = Some p"
    by (simp add: startExport_fst startExport_promise)
  from p show "export_state (snd (startExport now s)) = export_state s"
    by (simp add: export_state_startExport)
next
  assume idle: "exportPromise s = None"
  then show "fst (startExport now s) = Some (length (promises s))"
    by (simp add: startExport_fst startExport_promise)
  from idle show "exportPromise (snd (startExport now s)) = Some (length (promises s))"
    by (simp add: startExport_promise)
  from idle show "promises (snd (startExport now s)) = promises s @ [Pending]"
    by (simp add: startExport_promises)
next
  have pending: "exportPromise (snd (startExport now s)) \<noteq> None"
    by (simp add: startExport_promise)
  then show "fst (startExport now' (snd (startExport now s))) = fst (startExport now s)"
    by (simp add: startExport_fst startExport_promise [of now'])
  from pending
  show "promises (snd (startExport now' (snd (startExport now s)))) = promises (snd (startExport now s))"
    by (simp add: startExport_promises [of now'])
qed

theorem startExport_joins_witness:
  "fst (startExport 5 demo_container) = Some 0
   \<and> fst (startExport 9 (snd (startExport 5 demo_container))) = Some 0
   \<and> promises (snd (startExport 9 (snd (startExport 5 demo_container)))) = [Pending]"
proof -
  have i: "exportPromise demo_container = None" "promises demo_container = []"
    by (simp_all add: demo_container_def)
  from startExport_joins [of demo_container 5 9] i show ?thesis
    by simp
qed

section \<open>The debounce protocol\<close>

lemma step_export_state:
  "\<not> export_event ev \<Longrightarrow> export_state (step c (now, ev) s) = export_state s"
  by (cases ev) simp_all

lemma keeps_polling_other:
  "\<not> export_event ev \<Longrightarrow> keeps_polling q ((t, ev) # es) = keeps_polling q es"
  by (cases ev) simp_all

lemma last_read_other:
  "ev \<noteq> ReadIsInExport \<Longrightarrow> last_read q ((t, ev) # es) = last_read q es"
  by (cases ev) simp_all

lemma isInExport_promise:
  "exportPromise (snd (isInExport now s)) = exportPromise s"
  "promises (snd (isInExport now s)) = promises s"
  by (simp_all add: isInExport_def Let_def split: option.splits)

lemma exportPath_isInExport: "exportPath c (snd (isInExport now s)) = exportPath c s"
  by (simp add: isInExport_def Let_def split: option.splits)

lemma shouldInvoke_after:
  "lastCallTime x = Some u \<Longrightarrow> u \<le> t \<Longrightarrow> shouldInvoke t x = (u + debounce_wait \<le> t)"
  by (auto simp: shouldInvoke_def)

lemma export_state_fields:
  assumes "export_state s' = export_state s"
  shows "exportPromise s' = exportPromise s" and "endDebounce s' = endDebounce s"
    and "promises s' = promises s" and "debouncers s' = debouncers s"
  using assms by (simp_all add: export_state_def)

text \<open>
  While the status keeps being read, the session stays pending, whatever else happens:
  the promise, the debounced function and the promises' states stay, the timer stays
  armed, and the debounced function remembers the last read.
\<close>

lemma polling_keeps_session:
  assumes "session_inv s" and "exportPromise s = Some p" and "endDebounce s = Some d"
    and "lastCallTime (debouncers s ! d) = q" and "keeps_polling q evs"
  shows "session_inv (run c evs s) \<and> exportPromise (run c evs s) = Some p
         \<and> endDebounce (run c evs s) = Some d
         \<and> lastCallTime (debouncers (run c evs s) ! d) = last_read q evs
         \<and> (timerId (debouncers s ! d) \<longrightarrow> timerId (debouncers (run c evs s) ! d))
         \<and> promises (run c evs s) = promises s"
  using assms
proof (induction evs arbitrary: s q)
  case Nil
  then show ?case by simp
next
  case (Cons e es)
  obtain t ev where e: "e = (t, ev)" by (cases e)
  note inv = Cons.prems(1) and p = Cons.prems(2) and d = Cons.prems(3) and q = Cons.prems(4)
  have dlt: "d < length (debouncers s)" by (rule session_inv_debounce [OF inv d])
  consider (read) "ev = ReadIsInExport" | (timer) x where "ev = TimerExpired x"
    | (start) "ev = StartExport" | (other) "\<not> export_event ev"
    by (cases ev) auto
  then show ?case
  proof cases
    case read
    define s1 where "s1 = snd (isInExport t s)"
    note f = isInExport_pending_fields [OF p d, of t, folded s1_def]
    have inv1: "session_inv s1"
      unfolding s1_def by (rule session_inv_isInExport [OF inv])
    have l1: "lastCallTime (debouncers s1 ! d) = Some t" and a1: "timerId (debouncers s1 ! d)"
      using dlt by (simp_all add: f call_debounced_def)
    from Cons.prems(5) have k: "keeps_polling (Some t) es" by (simp add: e read)
    from Cons.IH [OF inv1 f(1) f(3) l1 k] a1 f(4)
    show ?thesis by (simp add: e read s1_def)
  next
    case timer
    from Cons.prems(5) have k: "keeps_polling q es"
      and w: "case q of None \<Rightarrow> True | Some u \<Rightarrow> u \<le> t \<and> t < u + debounce_wait"
      by (simp_all add: e timer)
    have "\<not> (x < length (debouncers s) \<and> timerId (debouncers s ! x)
            \<and> shouldInvoke t (debouncers s ! x))"
    proof
      assume a: "x < length (debouncers s) \<and> timerId (debouncers s ! x)
            \<and> shouldInvoke t (debouncers s ! x)"
      then have "endDebounce s = Some x \<and> lastCallTime (debouncers s ! x) \<noteq> None"
        using session_inv_timer [OF inv] by blast
      with d have x: "x = d" and "lastCallTime (debouncers s ! d) \<noteq> None" by simp_all
      with q obtain u where u: "q = Some u" "lastCallTime (debouncers s ! d) = Some u" by auto
      with w have "u \<le> t" "t < u + debounce_wait" by simp_all
      with u a x show False by (simp add: shouldInvoke_after)
    qed
    then have "step c e s = s" by (simp add: e timer timerExpired_idle)
    with Cons.IH [OF inv p d q k] show ?thesis
      by (simp add: e timer last_read_other)
  next
    case start
    from p have "export_state (step c e s) = export_state s"
      by (simp add: e start export_state_startExport)
    note f = export_state_fields [OF this]
    have inv1: "session_inv (step c e s)"
      by (rule session_inv_frame [OF \<open>export_state (step c e s) = export_state s\<close> inv])
    from Cons.prems(5) have k: "keeps_polling q es" by (simp add: e start)
    have p1: "exportPromise (step c e s) = Some p" and d1: "endDebounce (step c e s) = Some d"
      and q1: "lastCallTime (debouncers (step c e s) ! d) = q"
      using p d q by (simp_all add: f)
    have lr: "last_read q (e # es) = last_read q es" by (simp add: e start)
    from Cons.IH [OF inv1 p1 d1 q1 k]
    show ?thesis unfolding run.simps lr by (simp add: f)
  next
    case other
    have st: "export_state (step c e s) = export_state s"
      unfolding e by (rule step_export_state [OF other])
    note f = export_state_fields [OF st]
    have inv1: "session_inv (step c e s)"
      by (rule session_inv_frame [OF st inv])
    from other have nr: "ev \<noteq> ReadIsInExport" by auto
    from Cons.prems(5) have k: "keeps_polling q es" by (simp add: e keeps_polling_other [OF other])
    have p1: "exportPromise (step c e s) = Some p" and d1: "endDebounce (step c e s) = Some d"
      and q1: "lastCallTime (debouncers (step c e s) ! d) = q"
      using p d q by (simp_all add: f)
    have lr: "last_read q (e # es) = last_read q es"
      unfolding e by (rule last_read_other [OF nr])
    from Cons.IH [OF inv1 p1 d1 q1 k]
    show ?thesis unfolding run.simps lr by (simp add: f)
  qed
qed

text \<open>Once the wait has passed since the last read, the expiry of the timer ends the session.\<close>

lemma quiet_resolves:
  assumes inv: "session_inv s" and p: "exportPromise s = Some p" and d: "endDebounce s = Some d"
    and armed: "timerId (debouncers s ! d)" and u: "lastCallTime (debouncers s ! d) = Some u"
    and late: "u + debounce_wait \<le> t"
  shows "promises (timerExpired c t d s) = (promises s)[p := Resolved (exportPath c s)]
         \<and> promises (timerExpired c t d s) ! p = Resolved (exportPath c s)
         \<and> exportPromise (timerExpired c t d s) = None
         \<and> endDebounce (timerExpired c t d s) = None"
proof -
  have dlt: "d < length (debouncers s)" by (rule session_inv_debounce [OF inv d])
  from late have "u \<le> t" by simp
  with u late have due: "shouldInvoke t (debouncers s ! d)" by (simp add: shouldInvoke_after)
  from timerExpired_fires [OF inv dlt armed due, of c] p
  have plt: "p < length (promises s)"
    and f: "promises (timerExpired c t d s) = (promises s)[p := Resolved (exportPath c s)]"
      "exportPromise (timerExpired c t d s) = None" "endDebounce (timerExpired c t d s) = None"
    by auto
  from plt f show ?thesis by simp
qed

text \<open>
  Claim C4.  Without a session \<^verbatim>\<open>isInExport\<close> is false and changes nothing.  With a
  session it is true, and before it returns it calls the debounced function: the timer is
  armed and the wait of 800 ms starts again from the time of the read.  Hence, as long as
  at each expiry of the timer the last read is less than 800 ms old, the session stays
  pending, however long that goes on; and once 800 ms have passed since the last read,
  the expiry of the timer resolves the promise with the export path of that moment.
\<close>

theorem isInExport_rearms_debounce:
  "(exportPromise s = None \<longrightarrow> isInExport now s = (False, s))
   \<and> (\<forall>p d. session_inv s \<and> exportPromise s = Some p \<and> endDebounce s = Some d \<longrightarrow>
          fst (isInExport now s)
          \<and> lastCallTime (debouncers (snd (isInExport now s)) ! d) = Some now
          \<and> timerId (debouncers (snd (isInExport now s)) ! d)
          \<and> exportPromise (snd (isInExport now s)) = Some p
          \<and> promises (snd (isInExport now s)) = promises s
          \<and> (\<forall>evs. keeps_polling (Some now) evs \<longrightarrow>
                exportPromise (run c evs (snd (isInExport now s))) = Some p
                \<and> promises (run c evs (snd (isInExport now s))) ! p = Pending
                \<and> (\<forall>u t. last_read (Some now) evs = Some u \<and> u + debounce_wait \<le> t \<longrightarrow>
                      promises (timerExpired c t d (run c evs (snd (isInExport now s)))) ! p
                        = Resolved (exportPath c (run c evs (snd (isInExport now s))))
                      \<and> exportPromise (timerExpired c t d (run c evs (snd (isInExport now s))))
                        = None)))
   \<and> debounce_wait = 800"
proof (intro conjI allI impI)
  assume "exportPromise s = None"
  then show "isInExport now s = (False, s)" by (rule isInExport_idle)
next
  show "debounce_wait = 800" by (simp add: debounce_wait_def)
next
  fix p d
  assume a: "session_inv s \<and> exportPromise s = Some p \<and> endDebounce s = Some d"
  then have inv: "session_inv s" and p: "exportPromise s = Some p" and d: "endDebounce s = Some d"
    by simp_all
  define s1 where "s1 = snd (isInExport now s)"
  note f = isInExport_pending_fields [OF p d, of now, folded s1_def]
  have dlt: "d < length (debouncers s)" by (rule session_inv_debounce [OF inv d])
  have inv1: "session_inv s1" unfolding s1_def by (rule session_inv_isInExport [OF inv])
  have l1: "lastCallTime (debouncers s1 ! d) = Some now" and a1: "timerId (debouncers s1 ! d)"
    using dlt by (simp_all add: f call_debounced_def)
  have pending1: "promises s1 ! p = Pending"
    using session_inv_promise [OF inv p] by (simp add: f)
  from p show "fst (isInExport now s)" by (simp add: isInExport_def Let_def split: option.splits)
  from l1 show "lastCallTime (debouncers (snd (isInExport now s)) ! d) = Some now"
    by (simp add: s1_def)
  from a1 show "timerId (debouncers (snd (isInExport now s)) ! d)" by (simp add: s1_def)
  from f(1) show "exportPromise (snd (isInExport now s)) = Some p" by (simp add: s1_def)
  from f(4) show "promises (snd (isInExport now s)) = promises s" by (simp add: s1_def)
  fix evs
  assume k: "keeps_polling (Some now) evs"
  note r = polling_keeps_session [OF inv1 f(1) f(3) l1 k, of c]
  from r show "exportPromise (run c evs (snd (isInExport now s))) = Some p"
    by (simp add: s1_def)
  from r pending1 show "promises (run c evs (snd (isInExport now s))) ! p = Pending"
    by (simp add: s1_def)
  fix u t
  assume "last_read (Some now) evs = Some u \<and> u + debounce_wait \<le> t"
  then have u: "lastCallTime (debouncers (run c evs s1) ! d) = Some u"
    and late: "u + debounce_wait \<le> t"
    using r by simp_all
  from r a1 have armed: "timerId (debouncers (run c evs s1) ! d)" by simp
  from r have inv2: "session_inv (run c evs s1)" and p2: "exportPromise (run c evs s1) = Some p"
    and d2: "endDebounce (run c evs s1) = Some d"
    by simp_all
  note z = quiet_resolves [OF inv2 p2 d2 armed u late, of c, unfolded s1_def]
  from z show "promises (timerExpired c t d (run c evs (snd (isInExport now s)))) ! p
      = Resolved (exportPath c (run c evs (snd (isInExport now s))))"
    by blast
  from z show "exportPromise (timerExpired c t d (run c evs (snd (isInExport now s)))) = None"
    by blast
qed

lemma demo_started:
  "session_inv (snd (startExport 0 demo_container))
   \<and> exportPromise (snd (startExport 0 demo_container)) = Some 0
   \<and> endDebounce (snd (startExport 0 demo_container)) = Some 0"
proof -
  have i: "session_inv demo_container"
    by (simp add: session_inv_def demo_container_def)
  have "export_state (snd (startExport 0 demo_container)) =
      (Some 0, Some 0, Some 0, Some 0, [Pending], [new_debounced])"
    by (simp add: export_state_startExport demo_container_def)
  then have "exportPromise (snd (startExport 0 demo_container)) = Some 0"
    "endDebounce (snd (startExport 0 demo_container)) = Some 0"
    by (simp_all add: export_state_def)
  with session_inv_startExport [OF i, of 0] show ?thesis by simp
qed

lemma demo_exportPath: "exportPath demo_collab demo_pending = CStr ''/out''"
proof -
  have "exportPath demo_collab demo_pending = exportPath demo_collab demo_container"
    unfolding demo_pending_def exportPath_isInExport
    by (rule exportPath_frame) (simp_all add: startExport_frame)
  also have "\<dots> = CStr ''/out''"
    by (simp add: exportPath_def configuration_def demo_container_def demo_context_def)
  finally show ?thesis .
qed

theorem isInExport_rearms_debounce_witness:
  "isInExport 3 demo_container = (False, demo_container)
   \<and> fst (isInExport 10 (snd (startExport 0 demo_container)))
   \<and> lastCallTime (debouncers demo_pending ! 0) = Some 10
   \<and> exportPromise
        (run demo_collab
           [(500, TimerExpired 0), (700, ReadIsInExport), (1400, TimerExpired 0),
            (1450, ReadIsInExport), (2200, TimerExpired 0)] demo_pending) = Some 0
   \<and> promises (timerExpired demo_collab 810 0 demo_pending) ! 0 = Resolved (CStr ''/out'')
   \<and> exportPromise (timerExpired demo_collab 810 0 demo_pending) = None"
proof -
  let ?s0 = "snd (startExport 0 demo_container)"
  let ?evs = "[(500, TimerExpired 0), (700, ReadIsInExport), (1400, TimerExpired 0),
            (1450, ReadIsInExport), (2200::nat, TimerExpired 0)]"
  note T = isInExport_rearms_debounce [of ?s0 10 demo_collab]
  note U = isInExport_rearms_debounce [of demo_container 3 demo_collab]
  have idle: "exportPromise demo_container = None"
    by (simp add: demo_container_def)
  have k: "keeps_polling (Some 10) ?evs"
    by (simp add: debounce_wait_def)
  have k0: "keeps_polling (Some 10) []"
    by simp
  have l: "last_read (Some 10) [] = Some 10 \<and> 10 + debounce_wait \<le> 810"
    by (simp add: debounce_wait_def)
  from U idle have first: "isInExport 3 demo_container = (False, demo_container)"
    by blast
  from T demo_started
  have second: "fst (isInExport 10 ?s0) \<and> lastCallTime (debouncers (snd (isInExport 10 ?s0)) ! 0) = Some 10"
    by blast
  from T demo_started k
  have third: "exportPromise (run demo_collab ?evs (snd (isInExport 10 ?s0))) = Some 0"
    by blast
  from T demo_started k0 l
  have "promises (timerExpired demo_collab 810 0 (run demo_collab [] (snd (isInExport 10 ?s0)))) ! 0
         = Resolved (exportPath demo_collab (run demo_collab [] (snd (isInExport 10 ?s0))))
       \<and> exportPromise (timerExpired demo_collab 810 0 (run demo_collab [] (snd (isInExport 10 ?s0))))
         = None"
    by blast
  then have fourth: "promises (timerExpired demo_collab 810 0 demo_pending) ! 0 = Resolved (CStr ''/out'')
       \<and> exportPromise (timerExpired demo_collab 810 0 demo_pending) = None"
    by (simp add: demo_pending_def [symmetric] demo_exportPath)
  from first second third fourth show ?thesis
    by (simp add: demo_pending_def)
qed

section \<open>The life of an export session\<close>

lemma timerExpired_keeps:
  assumes "exportPromise s = Some p" and "exportPromise (timerExpired c now d s) \<noteq> Some p"
  shows "d < length (debouncers s) \<and> timerId (debouncers s ! d)
         \<and> shouldInvoke now (debouncers s ! d)"
proof (rule ccontr)
  assume "\<not> (d < length (debouncers s) \<and> timerId (debouncers s ! d)
         \<and> shouldInvoke now (debouncers s ! d))"
  then have "timerExpired c now d s = s" by (rule timerExpired_idle)
  with assms show False by simp
qed

lemma step_keeps_session:
  assumes "\<forall>d. ev \<noteq> TimerExpired d" and "exportPromise s = Some p"
  shows "exportPromise (step c (now, ev) s) = Some p \<and> promises (step c (now, ev) s) = promises s"
proof -
  from assms(1) consider (read) "ev = ReadIsInExport" | (start) "ev = StartExport"
    | (other) "\<not> export_event ev"
    by (cases ev) auto
  then show ?thesis
  proof cases
    case read
    with assms(2) show ?thesis by (simp add: isInExport_promise)
  next
    case start
    with assms(2) show ?thesis by (simp add: startExport_promise startExport_promises)
  next
    case other
    from export_state_fields [OF step_export_state [OF other, of c now s]] assms(2)
    show ?thesis by simp
  qed
qed

lemma demo_pending_state:
  "session_inv demo_pending \<and> exportPromise demo_pending = Some 0
   \<and> endDebounce demo_pending = Some 0 \<and> promises demo_pending = [Pending]
   \<and> debouncers demo_pending = [\<lparr>lastCallTime = Some 10, timerId = True\<rparr>]"
proof -
  let ?s0 = "snd (startExport 0 demo_container)"
  from demo_started have i: "session_inv ?s0" and p: "exportPromise ?s0 = Some 0"
    and d: "endDebounce ?s0 = Some 0"
    by simp_all
  have "export_state ?s0 = (Some 0, Some 0, Some 0, Some 0, [Pending], [new_debounced])"
    by (simp add: export_state_startExport demo_container_def)
  then have l: "promises ?s0 = [Pending]" "debouncers ?s0 = [new_debounced]"
    by (simp_all add: export_state_def)
  note f = isInExport_pending_fields [OF p d, of 10, folded demo_pending_def]
  have "session_inv demo_pending"
    unfolding demo_pending_def by (rule session_inv_isInExport [OF i])
  with f l show ?thesis by (simp add: call_debounced_def new_debounced_def)
qed

text \<open>
  Claim C5.  A session in progress survives every event but the expiry of a timer: the
  promise stays the session's promise and no promise changes state.  The expiry of a
  timer ends the session only by running the debounced callback, which needs an armed
  timer and, with the clock not behind the last call, 800 ms since that call.  When the
  callback runs, the session's promise is resolved with the export path of that moment,
  and the promise and the debounced function are set back to null.  In every state the
  Container reaches from its construction the invariant of the session holds, so at
  most one promise is pending.
\<close>

theorem export_session_lifecycle:
  "(\<forall>ev p. (\<forall>d. ev \<noteq> TimerExpired d) \<and> exportPromise s = Some p \<longrightarrow>
        exportPromise (step c (now, ev) s) = Some p
        \<and> promises (step c (now, ev) s) = promises s)
   \<and> (\<forall>p d. exportPromise s = Some p \<and> exportPromise (timerExpired c now d s) \<noteq> Some p \<longrightarrow>
          d < length (debouncers s) \<and> timerId (debouncers s ! d)
          \<and> shouldInvoke now (debouncers s ! d)
          \<and> (\<forall>u. lastCallTime (debouncers s ! d) = Some u \<and> u \<le> now \<longrightarrow> u + 800 \<le> now))
   \<and> (\<forall>p d. session_inv s \<and> exportPromise s = Some p \<and> d < length (debouncers s)
            \<and> timerId (debouncers s ! d) \<and> shouldInvoke now (debouncers s ! d) \<longrightarrow>
          promises (timerExpired c now d s) = (promises s)[p := Resolved (exportPath c s)]
          \<and> promises (timerExpired c now d s) ! p = Resolved (exportPath c s)
          \<and> exportPromise (timerExpired c now d s) = None
          \<and> endDebounce (timerExpired c now d s) = None)
   \<and> session_inv (run c evs (new_Container c loaded))
   \<and> length (filter (\<lambda>x. x = Pending) (promises (run c evs (new_Container c loaded)))) \<le> 1"
proof (intro conjI allI impI)
  fix ev p
  assume a: "(\<forall>d. ev \<noteq> TimerExpired d) \<and> exportPromise s = Some p"
  then have r: "exportPromise (step c (now, ev) s) = Some p
      \<and> promises (step c (now, ev) s) = promises s"
    using step_keeps_session [of ev s p c now] by blast
  from r show "exportPromise (step c (now, ev) s) = Some p" ..
  from r show "promises (step c (now, ev) s) = promises s" ..
next
  fix p d
  assume a: "exportPromise s = Some p \<and> exportPromise (timerExpired c now d s) \<noteq> Some p"
  then have r: "d < length (debouncers s) \<and> timerId (debouncers s ! d)
         \<and> shouldInvoke now (debouncers s ! d)"
    using timerExpired_keeps [of s p c now d] by blast
  from r show "d < length (debouncers s)" by blast
  from r show "timerId (debouncers s ! d)" by blast
  from r show due: "shouldInvoke now (debouncers s ! d)" by blast
  fix u
  assume "lastCallTime (debouncers s ! d) = Some u \<and> u \<le> now"
  with due show "u + 800 \<le> now"
    by (simp add: shouldInvoke_after debounce_wait_def)
next
  fix p d
  assume a: "session_inv s \<and> exportPromise s = Some p \<and> d < length (debouncers s)
            \<and> timerId (debouncers s ! d) \<and> shouldInvoke now (debouncers s ! d)"
  then have inv: "session_inv s" and p: "exportPromise s = Some p"
    and dlt: "d < length (debouncers s)" and armed: "timerId (debouncers s ! d)"
    and due: "shouldInvoke now (debouncers s ! d)"
    by simp_all
  from timerExpired_fires [OF inv dlt armed due, of c] p
  have plt: "p < length (promises s)"
    and f: "promises (timerExpired c now d s) = (promises s)[p := Resolved (exportPath c s)]"
      "exportPromise (timerExpired c now d s) = None" "endDebounce (timerExpired c now d s) = None"
    by auto
  from f(1) show "promises (timerExpired c now d s) = (promises s)[p := Resolved (exportPath c s)]" .
  from f(1) plt show "promises (timerExpired c now d s) ! p = Resolved (exportPath c s)" by simp
  from f(2) show "exportPromise (timerExpired c now d s) = None" .
  from f(3) show "endDebounce (timerExpired c now d s) = None" .
next
  show inv: "session_inv (run c evs (new_Container c loaded))"
    by (rule session_inv_run [OF session_inv_new])
  show "length (filter (\<lambda>x. x = Pending) (promises (run c evs (new_Container c loaded)))) \<le> 1"
    by (rule session_inv_one_pending [OF inv])
qed

theorem export_session_lifecycle_witness:
  "exportPromise (step demo_collab (20, GoToSlide 1 0) demo_pending) = Some 0
   \<and> exportPromise (timerExpired demo_collab 500 0 demo_pending) = Some 0
   \<and> promises (timerExpired demo_collab 810 0 demo_pending) = [Resolved (CStr ''/out'')]
   \<and> exportPromise (timerExpired demo_collab 810 0 demo_pending) = None
   \<and> endDebounce (timerExpired demo_collab 810 0 demo_pending) = None
   \<and> length (filter (\<lambda>x. x = Pending)
        (promises (run demo_collab [(0, StartExport), (5, StartExport)]
           (new_Container demo_collab Map.empty)))) \<le> 1"
proof -
  note T = export_session_lifecycle [of demo_pending demo_collab]
  from demo_pending_state have inv: "session_inv demo_pending"
    and p: "exportPromise demo_pending = Some 0" and l: "promises demo_pending = [Pending]"
    and b: "debouncers demo_pending = [\<lparr>lastCallTime = Some 10, timerId = True\<rparr>]"
    by simp_all
  have g: "(\<forall>d. GoToSlide 1 0 \<noteq> TimerExpired d) \<and> exportPromise demo_pending = Some 0"
    using p by simp
  from T [of 20] g
  have first: "exportPromise (step demo_collab (20, GoToSlide 1 0) demo_pending) = Some 0"
    by blast
  have early: "\<not> shouldInvoke 500 (debouncers demo_pending ! 0)"
    by (simp add: b shouldInvoke_def debounce_wait_def)
  from T [of 500] p early
  have second: "exportPromise (timerExpired demo_collab 500 0 demo_pending) = Some 0"
    by blast
  have h: "session_inv demo_pending \<and> exportPromise demo_pending = Some 0
      \<and> 0 < length (debouncers demo_pending) \<and> timerId (debouncers demo_pending ! 0)
      \<and> shouldInvoke 810 (debouncers demo_pending ! 0)"
    using inv p by (simp add: b shouldInvoke_def debounce_wait_def)
  from T [of 810] h
  have "promises (timerExpired demo_collab 810 0 demo_pending)
        = (promises demo_pending)[0 := Resolved (exportPath demo_collab demo_pending)]
      \<and> exportPromise (timerExpired demo_collab 810 0 demo_pending) = None
      \<and> endDebounce (timerExpired demo_collab 810 0 demo_pending) = None"
    by blast
  then have third: "promises (timerExpired demo_collab 810 0 demo_pending) = [Resolved (CStr ''/out'')]
      \<and> exportPromise (timerExpired demo_collab 810 0 demo_pending) = None
      \<and> endDebounce (timerExpired demo_collab 810 0 demo_pending) = None"
    by (simp add: l demo_exportPath)
  from export_session_lifecycle [of demo_pending demo_collab 0
      "[(0, StartExport), (5, StartExport)]" Map.empty]
  have fourth: "length (filter (\<lambda>x. x = Pending)
        (promises (run demo_collab [(0, StartExport), (5, StartExport)]
           (new_Container demo_collab Map.empty)))) \<le> 1"
    by blast
  from first second third fourth show ?thesis by blast
qed

section \<open>The promise is never rejected\<close>

lemma promises_timerExpired:
  "promises (timerExpired c now d s) = promises s
   \<or> (\<exists>r v. promises (timerExpired c now d s) = (promises s)[r := Resolved v])"
  by (simp add: timerExpired_def endExport_def resolve_promise_def split: option.splits) blast

lemma not_rejected_update:
  assumes "Rejected \<notin> set xs"
  shows "Rejected \<notin> set (xs[r := Resolved v])"
proof
  assume "Rejected \<in> set (xs[r := Resolved v])"
  then have "Rejected \<in> insert (Resolved v) (set xs)"
    using set_update_subset_insert [of xs r "Resolved v"] by blast
  with assms show False by simp
qed

lemma not_rejected_step:
  assumes "Rejected \<notin> set (promises s)"
  shows "Rejected \<notin> set (promises (step c e s))"
proof -
  obtain now ev where e: "e = (now, ev)" by (cases e)
  consider (read) "ev = ReadIsInExport" | (timer) d where "ev = TimerExpired d"
    | (start) "ev = StartExport" | (other) "\<not> export_event ev"
    by (cases ev) auto
  then show ?thesis
  proof cases
    case read
    with assms show ?thesis by (simp add: e isInExport_promise)
  next
    case timer
    from promises_timerExpired [of c now d s] assms
    have "Rejected \<notin> set (promises (timerExpired c now d s))"
      by (auto simp: not_rejected_update)
    then show ?thesis by (simp add: e timer)
  next
    case start
    with assms show ?thesis by (simp add: e startExport_promises)
  next
    case other
    from export_state_fields(3) [OF step_export_state [OF other, of c now s]] assms
    show ?thesis by (simp add: e)
  qed
qed

lemma not_rejected_run:
  "Rejected \<notin> set (promises s) \<Longrightarrow> Rejected \<notin> set (promises (run c es s))"
  by (induction es arbitrary: s) (simp_all add: not_rejected_step)

text \<open>
  Claim C6.  In the model as in the class, the reject function is stored and never
  called.  Whatever events the Container receives after its construction, no promise
  is ever rejected: each promise is pending or resolved.
\<close>

theorem export_never_rejected:
  "Rejected \<notin> set (promises (run c evs (new_Container c loaded)))
   \<and> (\<forall>x \<in> set (promises (run c evs (new_Container c loaded))).
         x = Pending \<or> (\<exists>v. x = Resolved v))"
proof -
  have "Rejected \<notin> set (promises (new_Container c loaded))"
    by (simp add: new_Container_def)
  then have n: "Rejected \<notin> set (promises (run c evs (new_Container c loaded)))"
    by (rule not_rejected_run)
  have "x = Pending \<or> (\<exists>v. x = Resolved v)"
    if "x \<in> set (promises (run c evs (new_Container c loaded)))" for x
  proof -
    from that n have "x \<noteq> Rejected" by auto
    then show ?thesis by (cases x) simp_all
  qed
  with n show ?thesis by blast
qed

theorem export_never_rejected_witness:
  "Rejected \<notin> set (promises
      (run demo_collab
         [(0, StartExport), (10, ReadIsInExport), (900, TimerExpired 0), (1000, StartExport)]
         (new_Container demo_collab Map.empty)))
   \<and> promises
        (run demo_collab
           [(0, StartExport), (10, ReadIsInExport), (900, TimerExpired 0), (1000, StartExport)]
           (new_Container demo_collab Map.empty))
       = [Resolved (CStr ''export''), Pending]"
proof -
  have "promises
        (run demo_collab
           [(0, StartExport), (10, ReadIsInExport), (900, TimerExpired 0), (1000, StartExport)]
           (new_Container demo_collab Map.empty))
       = [Resolved (CStr ''export''), Pending]"
    by (simp add: startExport_def isInExport_def timerExpired_def endExport_def
          resolve_promise_def shouldInvoke_def new_Container_def demo_collab_def emit_def
          call_debounced_def new_debounced_def debounce_wait_def exportPath_def
          configuration_def rootDir_def Let_def)
  with export_never_rejected [of demo_collab
      "[(0, StartExport), (10, ReadIsInExport), (900, TimerExpired 0), (1000, StartExport)]"
      Map.empty]
  show ?thesis by blast
qed


end
